theory Spec2Isabelle
  imports Main "HOL-Library.Char_ord" "HOL-Library.List_Lexorder" "HOL-Library.Multiset"
begin

section \<open>The index builder of step2_build_index.py\<close>

text \<open>
  The script scans a folder of images, embeds every image with a pretrained
  vision model in a pool of worker processes and saves the feature matrix and
  the path array. The embedding follows the source function by function:
  \<open>process_batch\<close> (the worker body) and \<open>build_index_fast\<close> (folder selection,
  scanning, chunking, the pool, the writer), with the \<open>__main__\<close> guard on top.
\<close>

subsection \<open>Exceptions, the file system, arrays\<close>

text \<open>Python exceptions are values; a fallible call returns \<open>exn + 'a\<close>.\<close>

datatype exn = OSError | ValueError | KeyboardInterrupt | RuntimeError

text \<open>
  The part of the file system the script reads: every existing path is a file
  of some size in bytes or a directory with its size and its entry names in the
  order the operating system lists them.
\<close>

datatype node = File nat | Dir nat "string list"

type_synonym filesystem = "string \<Rightarrow> node option"

definition path_exists :: "filesystem \<Rightarrow> string \<Rightarrow> bool" where
  "path_exists fs p = (fs p \<noteq> None)"

definition getsize :: "filesystem \<Rightarrow> string \<Rightarrow> exn + nat" where
  "getsize fs p =
     (case fs p of
        None \<Rightarrow> Inl OSError
      | Some (File n) \<Rightarrow> Inr n
      | Some (Dir n _) \<Rightarrow> Inr n)"

text \<open>
  A two-dimensional numpy array is the list of its rows. \<open>np.concatenate\<close> along
  axis 0 appends the rows of its arguments; it raises on an empty argument list
  and when the rows do not all have one width. (An array without rows has no
  width here; the model never produces one in what follows.)
\<close>

type_synonym 'a ndarray = "'a list list"

definition np_concatenate :: "'a ndarray list \<Rightarrow> exn + 'a ndarray" where
  "np_concatenate arrays =
     (if arrays = [] then Inl ValueError
      else (let rows = concat arrays in
            if list_all (\<lambda>r. length r = length (hd rows)) rows then Inr rows
            else Inl ValueError))"

subsection \<open>The external collaborators\<close>

text \<open>
  The weight loader, the model class and the preprocessing routine are imported
  by the script and are parameters here: \<open>np_load\<close> reads the weight archive,
  \<open>Dinov2Numpy\<close> builds the callable model from the weights, and
  \<open>resize_short_side\<close> turns a path into the model's input tensor. Each may
  raise.
\<close>

record ('w, 't, 'a) deps =
  np_load :: "string \<Rightarrow> exn + 'w"
  Dinov2Numpy :: "'w \<Rightarrow> exn + ('t \<Rightarrow> exn + 'a ndarray)"
  resize_short_side :: "string \<Rightarrow> exn + 't"

subsection \<open>process_batch\<close>

text \<open>
  The \<open>for\<close> loop of \<open>process_batch\<close>, with the two result lists as the
  accumulator. The body is under a bare \<open>except\<close>, so every exception of the size
  check, of preprocessing and of inference takes the \<open>continue\<close> branch.
\<close>

fun batch_loop ::
  "filesystem \<Rightarrow> (string \<Rightarrow> exn + 't) \<Rightarrow> ('t \<Rightarrow> exn + 'a ndarray) \<Rightarrow> string list \<Rightarrow>
   'a ndarray list \<times> string list \<Rightarrow> 'a ndarray list \<times> string list" where
  "batch_loop fs resize vit [] (batch_features, batch_paths) = (batch_features, batch_paths)"
| "batch_loop fs resize vit (path # rest) (batch_features, batch_paths) =
     (case getsize fs path of
        Inl e \<Rightarrow> batch_loop fs resize vit rest (batch_features, batch_paths)
      | Inr sz \<Rightarrow>
          if sz < 1024 then batch_loop fs resize vit rest (batch_features, batch_paths)
          else
            (case resize path of
               Inl e \<Rightarrow> batch_loop fs resize vit rest (batch_features, batch_paths)
             | Inr input_tensor \<Rightarrow>
                 (case vit input_tensor of
                    Inl e \<Rightarrow> batch_loop fs resize vit rest (batch_features, batch_paths)
                  | Inr feature \<Rightarrow>
                      batch_loop fs resize vit rest
                        (batch_features @ [feature], batch_paths @ [path]))))"

definition weight_file :: string where
  "weight_file = ''vit-dinov2-base.npz''"

definition process_batch ::
  "('w, 't, 'a) deps \<Rightarrow> filesystem \<Rightarrow> string list \<Rightarrow> exn + ('a ndarray list \<times> string list)" where
  "process_batch d fs image_paths =
     (if \<not> path_exists fs weight_file then Inr ([], [])
      else
        (case np_load d weight_file of
           Inl e \<Rightarrow> Inl e
         | Inr weights \<Rightarrow>
             (case Dinov2Numpy d weights of
                Inl e \<Rightarrow> Inl e
              | Inr vit \<Rightarrow> Inr (batch_loop fs (resize_short_side d) vit image_paths ([], [])))))"

subsection \<open>Scanning and chunking\<close>

text \<open>
  \<open>glob(os.path.join(folder, "*" + ext))\<close>: the entries of the folder whose name
  ends with the extension (compared as written, as on POSIX) and does not start
  with a dot, each joined to the folder name, in listing order; nothing when the
  folder is not a directory.
\<close>

definition endswith :: "string \<Rightarrow> string \<Rightarrow> bool" where
  "endswith name ext =
     (length ext \<le> length name \<and> drop (length name - length ext) name = ext)"

definition hidden :: "string \<Rightarrow> bool" where
  "hidden name = (case name of [] \<Rightarrow> False | c # _ \<Rightarrow> c = CHR ''.'')"

definition os_path_join :: "string \<Rightarrow> string \<Rightarrow> string" where
  "os_path_join folder name = folder @ ''/'' @ name"

definition glob :: "filesystem \<Rightarrow> string \<Rightarrow> string \<Rightarrow> string list" where
  "glob fs folder ext =
     (case fs folder of
        Some (Dir _ names) \<Rightarrow>
          map (os_path_join folder)
            (filter (\<lambda>name. \<not> hidden name \<and> endswith name ext) names)
      | _ \<Rightarrow> [])"

definition scan :: "filesystem \<Rightarrow> string \<Rightarrow> string list" where
  "scan fs target_folder = sort (glob fs target_folder ''.jpg'' @ glob fs target_folder ''.png'')"

text \<open>
  \<open>range(start, stop, step)\<close> for a positive step, the only one the script uses
  (Python raises on step 0; the list is empty here).
\<close>

function py_range :: "nat \<Rightarrow> nat \<Rightarrow> nat \<Rightarrow> nat list" where
  "py_range start stop step =
     (if step = 0 \<or> stop \<le> start then [] else start # py_range (start + step) stop step)"
  by pat_completeness auto
termination
  by (relation "measure (\<lambda>(start, stop, step). stop - start)") auto

declare py_range.simps [simp del]

definition batch_size :: nat where
  "batch_size = 100"

text \<open>\<open>[all_paths[i:i + batch_size] for i in range(0, total_imgs, batch_size)]\<close>\<close>

definition make_chunks :: "nat \<Rightarrow> 'p list \<Rightarrow> 'p list list" where
  "make_chunks bs all_paths =
     map (\<lambda>i. take bs (drop i all_paths)) (py_range 0 (length all_paths) bs)"

subsection \<open>The pool and the collecting loop\<close>

text \<open>
  \<open>pool.imap(f, chunks)\<close>: task \<open>i\<close> is \<open>f (chunks[i])\<close>. The workers finish tasks
  in some order, here the list \<open>completion\<close> of task numbers; a finished result
  is kept under its task number, and the iterator hands the results out by task
  number, waiting for one that is not there. An exception raised in a worker is
  the result of its task and is raised again when the consumer reaches it.
\<close>

definition pool_imap :: "('c \<Rightarrow> 'r) \<Rightarrow> 'c list \<Rightarrow> nat list \<Rightarrow> nat \<Rightarrow> 'r option" where
  "pool_imap f chunks completion =
     map_of (map (\<lambda>i. (i, f (chunks ! i))) (filter (\<lambda>i. i < length chunks) completion))"

text \<open>
  The \<open>for features, paths in pool.imap(...)\<close> loop over the task numbers, with
  \<open>all_features\<close> and \<open>valid_paths\<close> as the accumulator. \<open>None\<close>: the loop waits
  forever for a task that never finishes.
\<close>

fun collect ::
  "(nat \<Rightarrow> (exn + ('a ndarray list \<times> string list)) option) \<Rightarrow> nat list \<Rightarrow>
   'a ndarray list \<times> string list \<Rightarrow> (exn + ('a ndarray list \<times> string list)) option" where
  "collect results [] (all_features, valid_paths) = Some (Inr (all_features, valid_paths))"
| "collect results (i # rest) (all_features, valid_paths) =
     (case results i of
        None \<Rightarrow> None
      | Some (Inl e) \<Rightarrow> Some (Inl e)
      | Some (Inr (features, paths)) \<Rightarrow>
          if length features > 0
          then collect results rest (all_features @ features, valid_paths @ paths)
          else collect results rest (all_features, valid_paths))"

subsection \<open>build_index_fast and the top level\<close>

text \<open>
  What a run leaves behind: the message it ends with and the files it saved
  with \<open>np.save\<close>, in the order saved.
\<close>

datatype report =
    NoSourceFolder
  | NoImages string
  | IndexBuilt string nat nat
  | NoFeatures
  | Interrupted

datatype 'a npy = FeatureMatrix "'a ndarray" | PathArray "string list"

record 'a outcome =
  report :: report
  saved :: "(string \<times> 'a npy) list"

definition select_target_folder :: "filesystem \<Rightarrow> string option" where
  "select_target_folder fs =
     (if path_exists fs ''gallery'' then Some ''gallery''
      else if path_exists fs ''demo_data'' then Some ''demo_data''
      else None)"

definition write_index ::
  "string \<Rightarrow> nat \<Rightarrow> 'a ndarray list \<times> string list \<Rightarrow> exn + 'a outcome" where
  "write_index target_folder total_imgs collected =
     (case collected of (all_features, valid_paths) \<Rightarrow>
        if length all_features > 0 then
          (case np_concatenate all_features of
             Inl e \<Rightarrow> Inl e
           | Inr final_features \<Rightarrow>
               Inr \<lparr>report = IndexBuilt target_folder (length valid_paths) total_imgs,
                    saved = [(''index_features.npy'', FeatureMatrix final_features),
                             (''index_paths.npy'', PathArray valid_paths)]\<rparr>)
        else Inr \<lparr>report = NoFeatures, saved = []\<rparr>)"

text \<open>Steps 2 to 4 of \<open>build_index_fast\<close>, once the folder is chosen.\<close>

definition index_folder ::
  "('w, 't, 'a) deps \<Rightarrow> filesystem \<Rightarrow> nat list \<Rightarrow> string \<Rightarrow> (exn + 'a outcome) option" where
  "index_folder d fs completion target_folder =
     (let all_paths = scan fs target_folder;
          total_imgs = length all_paths
      in if total_imgs = 0 then Some (Inr \<lparr>report = NoImages target_folder, saved = []\<rparr>)
         else
           (let chunks = make_chunks batch_size all_paths in
            case collect (pool_imap (process_batch d fs) chunks completion)
                   [0..<length chunks] ([], []) of
              None \<Rightarrow> None
            | Some (Inl e) \<Rightarrow> Some (Inl e)
            | Some (Inr collected) \<Rightarrow> Some (write_index target_folder total_imgs collected)))"

definition build_index_fast ::
  "('w, 't, 'a) deps \<Rightarrow> filesystem \<Rightarrow> nat list \<Rightarrow> (exn + 'a outcome) option" where
  "build_index_fast d fs completion =
     (case select_target_folder fs of
        None \<Rightarrow> Some (Inr \<lparr>report = NoSourceFolder, saved = []\<rparr>)
      | Some target_folder \<Rightarrow> index_folder d fs completion target_folder)"

text \<open>The \<open>__main__\<close> guard: only \<open>KeyboardInterrupt\<close> is caught.\<close>

definition main ::
  "('w, 't, 'a) deps \<Rightarrow> filesystem \<Rightarrow> nat list \<Rightarrow> (exn + 'a outcome) option" where
  "main d fs completion =
     (case build_index_fast d fs completion of
        None \<Rightarrow> None
      | Some (Inl e) \<Rightarrow>
          if e = KeyboardInterrupt then Some (Inr \<lparr>report = Interrupted, saved = []\<rparr>)
          else Some (Inl e)
      | Some (Inr out) \<Rightarrow> Some (Inr out))"

subsection \<open>Vocabulary of the properties\<close>

text \<open>
  What the loop body of \<open>process_batch\<close> does with one path: the feature when
  the size check, preprocessing and inference all succeed, nothing otherwise.
\<close>

definition embed ::
  "filesystem \<Rightarrow> (string \<Rightarrow> exn + 't) \<Rightarrow> ('t \<Rightarrow> exn + 'a ndarray) \<Rightarrow> string \<Rightarrow>
   'a ndarray option" where
  "embed fs resize vit path =
     (case getsize fs path of
        Inl e \<Rightarrow> None
      | Inr sz \<Rightarrow>
          if sz < 1024 then None
          else
            (case resize path of
               Inl e \<Rightarrow> None
             | Inr input_tensor \<Rightarrow>
                 (case vit input_tensor of Inl e \<Rightarrow> None | Inr feature \<Rightarrow> Some feature)))"

definition contribution ::
  "filesystem \<Rightarrow> (string \<Rightarrow> exn + 't) \<Rightarrow> ('t \<Rightarrow> exn + 'a ndarray) \<Rightarrow> string \<Rightarrow>
   ('a ndarray \<times> string) list" where
  "contribution fs resize vit path =
     (case embed fs resize vit path of None \<Rightarrow> [] | Some feature \<Rightarrow> [(feature, path)])"

text \<open>Every task of the pool finishes.\<close>

definition all_finish :: "nat list \<Rightarrow> nat \<Rightarrow> bool" where
  "all_finish completion n = list_all (\<lambda>i. i \<in> set completion) [0..<n]"

text \<open>The path array and the (row, path) pairs of a saved index.\<close>

fun saved_paths :: "(string \<times> 'a npy) list \<Rightarrow> string list" where
  "saved_paths [] = []"
| "saved_paths ((name, PathArray ps) # rest) = ps @ saved_paths rest"
| "saved_paths ((name, FeatureMatrix m) # rest) = saved_paths rest"

fun saved_rows :: "(string \<times> 'a npy) list \<Rightarrow> 'a list list" where
  "saved_rows [] = []"
| "saved_rows ((name, FeatureMatrix m) # rest) = m @ saved_rows rest"
| "saved_rows ((name, PathArray ps) # rest) = saved_rows rest"

definition index_pairs :: "'a outcome \<Rightarrow> ('a list \<times> string) set" where
  "index_pairs out = set (zip (saved_rows (saved out)) (saved_paths (saved out)))"

text \<open>
  Two file systems with the same files and folders: they differ at most in the
  order in which a directory lists its entries.
\<close>

fun same_node :: "node option \<Rightarrow> node option \<Rightarrow> bool" where
  "same_node None None = True"
| "same_node (Some (File m)) (Some (File n)) = (m = n)"
| "same_node (Some (Dir m xs)) (Some (Dir n ys)) = (m = n \<and> mset xs = mset ys)"
| "same_node _ _ = False"

subsection \<open>Concrete inputs\<close>

text \<open>
  A small working directory: a gallery with two good images, a 500-byte stub,
  an image the preprocessing cannot read, an image the model fails on, a hidden
  file and a text file; the demo folder; the weight archive. The model and the
  preprocessing are stand-ins: the tensor of a path is the path, its feature the
  single row of its length and 7.
\<close>

definition demo_fs :: filesystem where
  "demo_fs =
     [''gallery'' \<mapsto>
        Dir 4096 [''b.jpg'', ''stub.jpg'', ''a.png'', ''notes.txt'', ''odd.jpg'', ''bad.jpg'',
                  ''.c.jpg''],
      ''gallery/b.jpg'' \<mapsto> File 51200,
      ''gallery/stub.jpg'' \<mapsto> File 500,
      ''gallery/a.png'' \<mapsto> File 2048,
      ''gallery/notes.txt'' \<mapsto> File 3000,
      ''gallery/bad.jpg'' \<mapsto> File 4000,
      ''gallery/odd.jpg'' \<mapsto> File 7000,
      ''gallery/.c.jpg'' \<mapsto> File 4000,
      ''demo_data'' \<mapsto> Dir 4096 [''d.jpg''],
      ''demo_data/d.jpg'' \<mapsto> File 9000,
      ''vit-dinov2-base.npz'' \<mapsto> File 346000000]"

definition demo_vit :: "string \<Rightarrow> exn + nat ndarray" where
  "demo_vit t = (if t = ''gallery/odd.jpg'' then Inl ValueError else Inr [[length t, 7]])"

definition demo_deps :: "(unit, string, nat) deps" where
  "demo_deps =
     \<lparr>np_load = (\<lambda>file. Inr ()),
      Dinov2Numpy = (\<lambda>weights. Inr demo_vit),
      resize_short_side =
        (\<lambda>path. if path = ''gallery/bad.jpg'' then Inl OSError else Inr path)\<rparr>"

text \<open>The same collaborators with a weight archive that cannot be read.\<close>

definition broken_deps :: "(unit, string, nat) deps" where
  "broken_deps = demo_deps\<lparr>np_load := (\<lambda>file. Inl ValueError)\<rparr>"

text \<open>The same directory with the gallery listed in another order.\<close>

definition demo_fs_relisted :: filesystem where
  "demo_fs_relisted =
     demo_fs(''gallery'' \<mapsto>
        Dir 4096 [''.c.jpg'', ''odd.jpg'', ''a.png'', ''bad.jpg'', ''notes.txt'', ''stub.jpg'',
                  ''b.jpg''])"

text \<open>The same directory without the gallery, and without the weight archive.\<close>

definition demo_only_fs :: filesystem where
  "demo_only_fs = demo_fs(''gallery'' := None)"

definition no_weights_fs :: filesystem where
  "no_weights_fs = demo_fs(''vit-dinov2-base.npz'' := None)"

text \<open>The same directory with a gallery that holds nothing but the stub.\<close>

definition stub_fs :: filesystem where
  "stub_fs = demo_fs(''gallery'' \<mapsto> Dir 4096 [''stub.jpg''])"

text \<open>The index a run over that directory is expected to save.\<close>

definition demo_index :: "nat outcome" where
  "demo_index =
     \<lparr>report = IndexBuilt ''gallery'' 2 5,
      saved = [(''index_features.npy'', FeatureMatrix [[13, 7], [13, 7]]),
               (''index_paths.npy'', PathArray [''gallery/a.png'', ''gallery/b.jpg''])]\<rparr>"

text \<open>
  A gallery of 150 images in two chunks: image \<open>k\<close> is named by \<open>k\<close> letters,
  the folder lists them from the last to the first, and a file has ten bytes for
  every character of its path, so that exactly the images from 91 on are large
  enough. The collaborators never fail; the feature of a tensor is the single row
  of its length.
\<close>

definition big_name :: "nat \<Rightarrow> string" where
  "big_name k = replicate k CHR ''a'' @ ''.jpg''"

definition big_path :: "nat \<Rightarrow> string" where
  "big_path k = os_path_join ''gallery'' (big_name k)"

definition big_fs :: filesystem where
  "big_fs p =
     (if p = ''gallery'' then Some (Dir 4096 (map big_name (rev [1..<151])))
      else if p = ''vit-dinov2-base.npz'' then Some (File 346000000)
      else if p \<in> set (map big_path [1..<151]) then Some (File (10 * length p))
      else None)"

definition plain_vit :: "string \<Rightarrow> exn + nat ndarray" where
  "plain_vit t = Inr [[length t]]"

definition plain_deps :: "(unit, string, nat) deps" where
  "plain_deps =
     \<lparr>np_load = (\<lambda>file. Inr ()),
      Dinov2Numpy = (\<lambda>weights. Inr plain_vit),
      resize_short_side = (\<lambda>path. Inr path)\<rparr>"

section \<open>Properties\<close>

subsection \<open>Chunking\<close>

lemma div_step_up: "0 < (b::nat) \<Longrightarrow> m = a + b \<Longrightarrow> m div b = Suc (a div b)"
  using div_add_self2 [of b a] by simp

lemma py_range_length:
  "0 < bs \<Longrightarrow> length (py_range s n bs) = (n - s + bs - 1) div bs"
proof (induction s n bs rule: py_range.induct)
  case (1 start stop step)
  show ?case
  proof (cases "stop \<le> start")
    case True
    with 1 show ?thesis by (simp add: py_range.simps [of start])
  next
    case False
    from False 1 have len: "length (py_range start stop step) = Suc ((stop - (start + step) + step - 1) div step)"
      by (simp add: py_range.simps [of start])
    show ?thesis
    proof (cases "stop - start < step")
      case True
      with False have "stop - start + step - 1 = (stop - start - 1) + step" by arith
      then have "(stop - start + step - 1) div step = Suc ((stop - start - 1) div step)"
        using 1(2) by (rule div_step_up [rotated])
      moreover have "(stop - start - 1) div step = 0" using True by simp
      moreover have "(stop - (start + step) + step - 1) div step = 0" using True 1(2) by simp
      ultimately show ?thesis using len by simp
    next
      case b: False
      then have "stop - start + step - 1 = (stop - (start + step) + step - 1) + step" 
        using False 1(2) by arith
      then have "(stop - start + step - 1) div step = Suc ((stop - (start + step) + step - 1) div step)"
        using 1(2) by (rule div_step_up [rotated])
      then show ?thesis using len by simp
    qed
  qed
qed

lemma py_range_250: "py_range 0 250 100 = [0, 100, 200]"
  by (simp add: py_range.simps [of 0] py_range.simps [of 100] py_range.simps [of 200] py_range.simps [of 300])


lemma concat_chunks_from:
  "0 < bs \<Longrightarrow> concat (map (\<lambda>i. take bs (drop i xs)) (py_range s (length xs) bs)) = drop s xs"
proof (induction s "length xs" bs rule: py_range.induct)
  case (1 start step)
  show ?case
  proof (cases "length xs \<le> start")
    case True
    then show ?thesis by (simp add: py_range.simps [of start])
  next
    case False
    have "take step (drop start xs) @ drop (start + step) xs = drop start xs"
      by (metis add.commute append_take_drop_id drop_drop)
    with False 1 show ?thesis by (simp add: py_range.simps [of start])
  qed
qed

lemma make_chunks_concat: "0 < bs \<Longrightarrow> concat (make_chunks bs xs) = xs"
  using concat_chunks_from [of bs xs 0] by (simp add: make_chunks_def)

lemma make_chunks_length: "0 < bs \<Longrightarrow> length (make_chunks bs xs) = (length xs + bs - 1) div bs"
  by (simp add: make_chunks_def py_range_length)

lemma py_range_nth:
  "0 < bs \<Longrightarrow> k < length (py_range s n bs) \<Longrightarrow> py_range s n bs ! k = s + k * bs"
proof (induction s n bs arbitrary: k rule: py_range.induct)
  case (1 start stop step)
  show ?case
  proof (cases "stop \<le> start")
    case True
    with 1 show ?thesis by (simp add: py_range.simps [of start])
  next
    case False
    with 1 show ?thesis
     by (cases k) (simp_all add: py_range.simps [of start])
  qed
qed

lemma make_chunks_nth:
  "0 < bs \<Longrightarrow> k < length (make_chunks bs xs) \<Longrightarrow> make_chunks bs xs ! k = take bs (drop (k * bs) xs)"
  by (simp add: make_chunks_def py_range_nth)

lemma make_chunks_index_bound:
  assumes "0 < bs" "k < length (make_chunks bs xs)"
  shows "k * bs < length xs"
proof -
  from assms have "k < (length xs + bs - 1) div bs" by (simp add: make_chunks_length)
  then have "Suc k * bs \<le> length xs + bs - 1"
    using assms(1) by (metis Suc_leI less_eq_div_iff_mult_less_eq)
  then show ?thesis using assms(1) by simp
qed

lemma make_chunks_full:
  assumes "0 < bs" "Suc k < length (make_chunks bs xs)"
  shows "length (make_chunks bs xs ! k) = bs"
proof -
  from assms have "Suc k * bs < length xs" by (rule make_chunks_index_bound)
  moreover from assms have "make_chunks bs xs ! k = take bs (drop (k * bs) xs)"
    by (simp add: make_chunks_nth)
  ultimately show ?thesis by simp
qed

lemma make_chunks_sizes:
  assumes "0 < bs" "c \<in> set (make_chunks bs xs)"
  shows "0 < length c \<and> length c \<le> bs"
proof -
  from assms(2) obtain k where k: "k < length (make_chunks bs xs)" "c = make_chunks bs xs ! k"
    by (auto simp: in_set_conv_nth)
  with assms(1) have "c = take bs (drop (k * bs) xs)" by (simp add: make_chunks_nth)
  moreover from assms(1) k(1) have "k * bs < length xs" by (rule make_chunks_index_bound)
  ultimately show ?thesis using assms(1) by simp
qed

lemma make_chunks_250:
  "length xs = 250 \<Longrightarrow> map length (make_chunks 100 xs) = [100, 100, 50]"
  by (simp add: make_chunks_def py_range_250)

text \<open>
  Claim C3. The dispatcher cuts the discovered path list into contiguous chunks
  of exactly \<open>batch_size\<close> = 100 paths, the last one possibly shorter and none
  empty: chunk \<open>k\<close> is the slice of the list from position \<open>100 k\<close>, the chunks
  appended in order give the list back (so nothing is lost, repeated or
  reordered), and a list of 250 paths gives the three chunks of 100, 100 and 50
  paths.
\<close>

theorem chunk_partition:
  "concat (make_chunks batch_size all_paths) = all_paths \<and>
   length (make_chunks batch_size all_paths) = (length all_paths + 99) div 100 \<and>
   (\<forall>k < length (make_chunks batch_size all_paths).
      make_chunks batch_size all_paths ! k = take 100 (drop (k * 100) all_paths)) \<and>
   (\<forall>k. Suc k < length (make_chunks batch_size all_paths) \<longrightarrow>
      length (make_chunks batch_size all_paths ! k) = 100) \<and>
   (\<forall>c \<in> set (make_chunks batch_size all_paths). 0 < length c \<and> length c \<le> 100) \<and>
   (length all_paths = 250 \<longrightarrow>
      map length (make_chunks batch_size all_paths) = [100, 100, 50])"
  unfolding batch_size_def
  using make_chunks_concat [of 100 all_paths] make_chunks_length [of 100 all_paths]
    make_chunks_nth [of 100 _ all_paths] make_chunks_full [of 100 _ all_paths]
    make_chunks_sizes [of 100 _ all_paths] make_chunks_250 [of all_paths]
  by simp

theorem chunk_partition_witness:
  "length [0..<250] = 250 \<and>
   map length (make_chunks batch_size [0..<250]) = [100, 100, 50] \<and>
   0 < length (make_chunks batch_size [0..<250]) \<and>
   Suc 1 < length (make_chunks batch_size [0..<250]) \<and>
   make_chunks batch_size [0..<250] ! 1 = [100..<200] \<and>
   length (make_chunks batch_size [0..<250] ! 1) = 100 \<and>
   [200..<250] \<in> set (make_chunks batch_size [0..<250]) \<and>
   concat (make_chunks batch_size [0..<250]) = [0..<250]"
  using chunk_partition [of "[0..<250]"]
  by (simp add: make_chunks_def batch_size_def py_range_250 take_upt del: upt_Suc)

subsection \<open>The worker, the pool and the collecting loop\<close>

lemma batch_loop_eq:
  "batch_loop fs resize vit ps (bf, bp) =
     (bf @ List.map_filter (embed fs resize vit) ps,
      bp @ filter (\<lambda>p. embed fs resize vit p \<noteq> None) ps)"
proof (induction ps arbitrary: bf bp)
  case Nil
  show ?case by (simp add: List.map_filter_simps)
next
  case (Cons p ps)
  show ?case
    by (simp add: Cons.IH embed_def List.map_filter_simps split: sum.splits)
qed

lemma process_batch_absent:
  "\<not> path_exists fs weight_file \<Longrightarrow> process_batch d fs ps = Inr ([], [])"
  by (simp add: process_batch_def)

lemma process_batch_loaded:
  assumes "path_exists fs weight_file" "np_load d weight_file = Inr w" "Dinov2Numpy d w = Inr vit"
  shows "process_batch d fs ps =
           Inr (List.map_filter (embed fs (resize_short_side d) vit) ps,
                filter (\<lambda>p. embed fs (resize_short_side d) vit p \<noteq> None) ps)"
  using assms by (simp add: process_batch_def batch_loop_eq)

lemma process_batch_error:
  "process_batch d fs ps = Inl e \<longleftrightarrow> process_batch d fs [] = Inl e"
  by (simp add: process_batch_def split: sum.splits)

lemma process_batch_cases:
  obtains (absent) "\<not> path_exists fs weight_file"
  | (error) e where "path_exists fs weight_file" "\<And>ps. process_batch d fs ps = Inl e"
  | (loaded) w vit where "path_exists fs weight_file" "np_load d weight_file = Inr w"
      "Dinov2Numpy d w = Inr vit"
proof (cases "path_exists fs weight_file")
  case False
  then show ?thesis by (rule absent)
next
  case True
  show ?thesis
  proof (cases "np_load d weight_file")
    case (Inl e)
    with True have "\<And>ps. process_batch d fs ps = Inl e" by (simp add: process_batch_def)
    with True show ?thesis by (rule error)
  next
    case w: (Inr w)
    show ?thesis
    proof (cases "Dinov2Numpy d w")
      case (Inl e)
      with True w have "\<And>ps. process_batch d fs ps = Inl e" by (simp add: process_batch_def)
      with True show ?thesis by (rule error)
    next
      case (Inr vit)
      with True w show ?thesis by (rule loaded)
    qed
  qed
qed

lemma map_filter_length_eq:
  "length (List.map_filter f xs) = length (filter (\<lambda>x. f x \<noteq> None) xs)"
  by (induction xs) (auto simp: List.map_filter_simps split: option.splits)

lemma process_batch_lengths:
  "process_batch d fs ps = Inr (F, P) \<Longrightarrow> length F = length P"
  by (cases rule: process_batch_cases [where fs = fs and d = d])
     (auto simp: process_batch_absent process_batch_loaded map_filter_length_eq)

lemma pool_imap_lookup:
  "pool_imap f chunks completion i =
     (if i \<in> set completion \<and> i < length chunks then Some (f (chunks ! i)) else None)"
  unfolding pool_imap_def
  by (induction completion) auto

lemma all_finish_iff: "all_finish completion n \<longleftrightarrow> (\<forall>i<n. i \<in> set completion)"
  by (auto simp: all_finish_def list_all_iff)

lemma collect_all:
  assumes "\<forall>i\<in>set is. results i = Some (Inr (g i))"
    and "\<forall>i\<in>set is. length (fst (g i)) = length (snd (g i))"
  shows "collect results is (af, vp) =
           Some (Inr (af @ concat (map (\<lambda>i. fst (g i)) is), vp @ concat (map (\<lambda>i. snd (g i)) is)))"
  using assms
proof (induction "is" arbitrary: af vp)
  case Nil
  show ?case by simp
next
  case (Cons i rest)
  obtain F P where g: "g i = (F, P)" by (cases "g i")
  with Cons.prems have "results i = Some (Inr (F, P))" "length F = length P" by auto
  moreover have "collect results rest (af', vp') =
      Some (Inr (af' @ concat (map (\<lambda>i. fst (g i)) rest), vp' @ concat (map (\<lambda>i. snd (g i)) rest)))" for af' vp'
    using Cons.prems by (intro Cons.IH) auto
  ultimately show ?case using g by auto
qed

lemma collect_error:
  assumes "\<forall>i\<in>set is. results i = Some (Inl e)" "is \<noteq> []"
  shows "collect results is acc = Some (Inl e)"
  using assms by (cases "is"; cases acc) auto

lemma collect_unfinished:
  assumes "i \<in> set is" "results i = None"
  shows "collect results is acc \<noteq> Some (Inr c)"
  using assms
proof (induction "is" arbitrary: acc)
  case Nil
  then show ?case by simp
next
  case (Cons j rest)
  obtain af vp where acc: "acc = (af, vp)" by (cases acc)
  show ?case
  proof (cases "results j")
    case None
    then show ?thesis by (simp add: acc)
  next
    case (Some r)
    with Cons.prems have "i \<in> set rest" by auto
    then have "collect results rest acc' \<noteq> Some (Inr c)" for acc'
      using Cons.prems(2) by (rule Cons.IH)
    then show ?thesis using Some by (auto simp: acc split: sum.splits)
  qed
qed


lemma concat_map_nth:
  "concat (map (\<lambda>i. h (xss ! i)) [0..<length xss]) = concat (map h xss)"
proof -
  have "map (\<lambda>i. h (xss ! i)) [0..<length xss] = map h (map ((!) xss) [0..<length xss])"
    by simp
  then show ?thesis by (simp only: map_nth)
qed

lemma map_filter_concat:
  "concat (map (List.map_filter f) xss) = List.map_filter f (concat xss)"
  by (induction xss) (simp_all add: List.map_filter_def)

lemma filter_concat_map:
  "concat (map (filter P) xss) = filter P (concat xss)"
  by (induction xss) simp_all

lemma make_chunks_nonempty:
  "all_paths \<noteq> [] \<Longrightarrow> 0 < length (make_chunks batch_size all_paths)"
proof -
  assume "all_paths \<noteq> []"
  then have "100 \<le> length all_paths + 99" by (cases all_paths) simp_all
  then have "0 < (length all_paths + 99) div 100" by simp
  then show ?thesis by (simp add: make_chunks_length batch_size_def)
qed

lemma index_folder_eq:
  assumes ne: "scan fs folder \<noteq> []"
    and fin: "all_finish completion (length (make_chunks batch_size (scan fs folder)))"
  shows "index_folder d fs completion folder =
           (case process_batch d fs (scan fs folder) of
              Inl e \<Rightarrow> Some (Inl e)
            | Inr collected \<Rightarrow> Some (write_index folder (length (scan fs folder)) collected))"
proof -
  let ?chunks = "make_chunks batch_size (scan fs folder)"
  let ?results = "pool_imap (process_batch d fs) ?chunks completion"
  have res: "?results i = Some (process_batch d fs (?chunks ! i))" if "i < length ?chunks" for i
    using that fin by (simp add: pool_imap_lookup all_finish_iff)
  have cc: "concat ?chunks = scan fs folder"
    by (simp add: make_chunks_concat batch_size_def)
  have unf: "index_folder d fs completion folder =
      (case collect ?results [0..<length ?chunks] ([], []) of
         None \<Rightarrow> None
       | Some (Inl e) \<Rightarrow> Some (Inl e)
       | Some (Inr collected) \<Rightarrow> Some (write_index folder (length (scan fs folder)) collected))"
    using ne by (simp add: index_folder_def Let_def)
  show ?thesis
  proof (cases rule: process_batch_cases [where fs = fs and d = d])
    case absent
    then have "\<forall>i\<in>set [0..<length ?chunks]. ?results i = Some (Inr ([], []))"
      by (simp add: res process_batch_absent)
    then have "collect ?results [0..<length ?chunks] ([], []) = Some (Inr ([], []))"
      using collect_all [of "[0..<length ?chunks]" ?results "\<lambda>i. ([], [])" "[]" "[]"] by simp
    with absent show ?thesis by (simp add: unf process_batch_absent)
  next
    case (error e)
    then have "\<forall>i\<in>set [0..<length ?chunks]. ?results i = Some (Inl e)"
      by (simp add: res)
    moreover have "[0..<length ?chunks] \<noteq> []"
      using make_chunks_nonempty [OF ne] by simp
    ultimately have "collect ?results [0..<length ?chunks] ([], []) = Some (Inl e)"
      by (rule collect_error)
    with error show ?thesis by (simp add: unf)
  next
    case (loaded w vit)
    let ?E = "embed fs (resize_short_side d) vit"
    let ?g = "\<lambda>i. (List.map_filter ?E (?chunks ! i), filter (\<lambda>p. ?E p \<noteq> None) (?chunks ! i))"
    have "\<forall>i\<in>set [0..<length ?chunks]. ?results i = Some (Inr (?g i))"
      using loaded by (simp add: res process_batch_loaded)
    moreover have "\<forall>i\<in>set [0..<length ?chunks]. length (fst (?g i)) = length (snd (?g i))"
      by (simp add: map_filter_length_eq)
    ultimately have "collect ?results [0..<length ?chunks] ([], []) =
        Some (Inr ([] @ concat (map (\<lambda>i. fst (?g i)) [0..<length ?chunks]),
                   [] @ concat (map (\<lambda>i. snd (?g i)) [0..<length ?chunks])))"
      by (rule collect_all)
    then have "collect ?results [0..<length ?chunks] ([], []) =
        Some (Inr (List.map_filter ?E (scan fs folder), filter (\<lambda>p. ?E p \<noteq> None) (scan fs folder)))"
      using concat_map_nth [of "List.map_filter ?E" ?chunks]
        concat_map_nth [of "filter (\<lambda>p. ?E p \<noteq> None)" ?chunks]
      by (simp add: map_filter_concat filter_concat_map cc)
    with loaded show ?thesis by (simp add: unf process_batch_loaded)
  qed
qed

lemma index_folder_unfinished:
  assumes ne: "scan fs folder \<noteq> []"
    and fin: "\<not> all_finish completion (length (make_chunks batch_size (scan fs folder)))"
  shows "index_folder d fs completion folder \<noteq> Some (Inr out)"
proof -
  let ?chunks = "make_chunks batch_size (scan fs folder)"
  let ?results = "pool_imap (process_batch d fs) ?chunks completion"
  from fin obtain i where i: "i < length ?chunks" "i \<notin> set completion"
    by (auto simp: all_finish_iff)
  then have "i \<in> set [0..<length ?chunks]" "?results i = None"
    by (simp_all add: pool_imap_lookup)
  then have "collect ?results [0..<length ?chunks] ([], []) \<noteq> Some (Inr c)" for c
    by (rule collect_unfinished)
  then show ?thesis
    using ne by (auto simp: index_folder_def Let_def split: option.splits sum.splits)
qed

lemma collect_raises:
  "collect results is acc = Some (Inl e) \<Longrightarrow> \<exists>i\<in>set is. results i = Some (Inl e)"
proof (induction "is" arbitrary: acc)
  case Nil
  then show ?case by (cases acc) simp
next
  case (Cons j rest)
  obtain af vp where acc: "acc = (af, vp)" by (cases acc)
  show ?case
  proof (cases "results j")
    case None
    with Cons.prems show ?thesis by (simp add: acc)
  next
    case (Some r)
    show ?thesis
    proof (cases r)
      case (Inl e')
      with Some Cons.prems show ?thesis by (simp add: acc)
    next
      case (Inr fp)
      obtain F P where fp: "fp = (F, P)" by (cases fp)
      from Cons.prems Some Inr fp obtain acc' where "collect results rest acc' = Some (Inl e)"
        by (auto simp: acc split: if_splits)
      then have "\<exists>i\<in>set rest. results i = Some (Inl e)" by (rule Cons.IH)
      then show ?thesis by auto
    qed
  qed
qed

lemma collect_pool_unfinished:
  assumes "\<not> all_finish completion (length chunks)"
  shows "collect (pool_imap f chunks completion) [0..<length chunks] acc \<noteq> Some (Inr c)"
proof -
  from assms obtain i where "i < length chunks" "i \<notin> set completion"
    by (auto simp: all_finish_iff)
  then have "i \<in> set [0..<length chunks]" "pool_imap f chunks completion i = None"
    by (simp_all add: pool_imap_lookup)
  then show ?thesis by (rule collect_unfinished)
qed

lemma index_folder_returns:
  assumes ret: "index_folder d fs completion folder = Some r"
    and ne: "scan fs folder \<noteq> []"
  shows "r = (case process_batch d fs (scan fs folder) of
                Inl e \<Rightarrow> Inl e
              | Inr collected \<Rightarrow> write_index folder (length (scan fs folder)) collected)"
proof (cases "all_finish completion (length (make_chunks batch_size (scan fs folder)))")
  case True
  from index_folder_eq [OF ne True, of d] ret show ?thesis
    by (simp split: sum.splits)
next
  case False
  let ?chunks = "make_chunks batch_size (scan fs folder)"
  let ?results = "pool_imap (process_batch d fs) ?chunks completion"
  from index_folder_unfinished [OF ne False] ret obtain e where r: "r = Inl e"
    by (cases r) auto
  have "collect ?results [0..<length ?chunks] ([], []) \<noteq> Some (Inr c)" for c
    using False by (rule collect_pool_unfinished)
  with r ret ne have "collect ?results [0..<length ?chunks] ([], []) = Some (Inl e)"
    by (auto simp: index_folder_def Let_def split: option.splits sum.splits)
  then obtain i where "?results i = Some (Inl e)"
    using collect_raises by blast
  then have "process_batch d fs (?chunks ! i) = Inl e"
    by (simp add: pool_imap_lookup split: if_splits)
  then have "process_batch d fs (scan fs folder) = Inl e"
    using process_batch_error by blast
  with r show ?thesis by simp
qed

lemma index_folder_no_images:
  "scan fs folder = [] \<Longrightarrow>
   index_folder d fs completion folder = Some (Inr \<lparr>report = NoImages folder, saved = []\<rparr>)"
  by (simp add: index_folder_def)

lemma one_row_concat:
  "\<forall>f\<in>set fs. length f = 1 \<Longrightarrow> concat fs = map hd fs"
proof (induction fs)
  case Nil
  show ?case by simp
next
  case (Cons f fs)
  then obtain r where "f = [r]" by (cases f) auto
  with Cons show ?case by simp
qed

lemma np_concatenate_rows:
  "np_concatenate arrays = Inr m \<Longrightarrow> m = concat arrays"
  by (auto simp: np_concatenate_def Let_def split: if_splits)

lemma np_concatenate_uniform:
  assumes "arrays \<noteq> []" "\<forall>f\<in>set arrays. \<forall>r\<in>set f. length r = D"
  shows "np_concatenate arrays = Inr (concat arrays)"
proof -
  have "\<forall>r\<in>set (concat arrays). length r = D" using assms(2) by auto
  moreover have "concat arrays \<noteq> [] \<Longrightarrow> length (hd (concat arrays)) = D"
    using calculation by (metis hd_in_set)
  ultimately have "list_all (\<lambda>r. length r = length (hd (concat arrays))) (concat arrays)"
    by (cases "concat arrays = []") (auto simp: list_all_iff)
  with assms(1) show ?thesis by (simp add: np_concatenate_def del: set_concat)
qed

lemma write_index_saved:
  assumes "write_index folder n (F, P) = Inr out" "saved out \<noteq> []"
  shows "F \<noteq> [] \<and> np_concatenate F = Inr (concat F) \<and>
         out = \<lparr>report = IndexBuilt folder (length P) n,
                saved = [(''index_features.npy'', FeatureMatrix (concat F)),
                         (''index_paths.npy'', PathArray P)]\<rparr>"
proof -
  from assms have ne: "F \<noteq> []"
    by (auto simp: write_index_def split: if_splits)
  with assms obtain m where m: "np_concatenate F = Inr m"
    by (cases "np_concatenate F") (auto simp: write_index_def)
  then have "m = concat F" by (rule np_concatenate_rows)
  with assms ne m show ?thesis by (auto simp: write_index_def)
qed

lemma write_index_empty:
  "write_index folder n ([], P) = Inr \<lparr>report = NoFeatures, saved = []\<rparr>"
  by (simp add: write_index_def)

lemma embed_Some:
  "embed fs resize vit p = Some f \<Longrightarrow>
   \<exists>sz t. getsize fs p = Inr sz \<and> 1024 \<le> sz \<and> resize p = Inr t \<and> vit t = Inr f"
  by (auto simp: embed_def split: sum.splits if_splits)

lemma map_filter_as_map:
  "List.map_filter f xs = map (\<lambda>x. the (f x)) (filter (\<lambda>x. f x \<noteq> None) xs)"
  by (simp add: List.map_filter_def comp_def)

text \<open>What a run that saves an index has done.\<close>

lemma build_index_fast_saved:
  assumes run: "build_index_fast d fs completion = Some (Inr out)" and sv: "saved out \<noteq> []"
  obtains folder w vit where
    "select_target_folder fs = Some folder"
    "path_exists fs weight_file" "np_load d weight_file = Inr w" "Dinov2Numpy d w = Inr vit"
    "out = \<lparr>report = IndexBuilt folder
                (length (filter (\<lambda>p. embed fs (resize_short_side d) vit p \<noteq> None) (scan fs folder)))
                (length (scan fs folder)),
             saved = [(''index_features.npy'',
                        FeatureMatrix (concat (List.map_filter (embed fs (resize_short_side d) vit) (scan fs folder)))),
                      (''index_paths.npy'',
                        PathArray (filter (\<lambda>p. embed fs (resize_short_side d) vit p \<noteq> None) (scan fs folder)))]\<rparr>"
proof -
  from run sv obtain folder where folder: "select_target_folder fs = Some folder"
    and idx: "index_folder d fs completion folder = Some (Inr out)"
    by (cases "select_target_folder fs") (auto simp: build_index_fast_def)
  have ne: "scan fs folder \<noteq> []"
    using idx sv by (auto simp: index_folder_no_images)
  from index_folder_returns [OF idx ne]
  have r: "Inr out = (case process_batch d fs (scan fs folder) of
                Inl e \<Rightarrow> Inl e
              | Inr collected \<Rightarrow> write_index folder (length (scan fs folder)) collected)" .
  show ?thesis
  proof (cases rule: process_batch_cases [where fs = fs and d = d])
    case absent
    with r sv show ?thesis by (simp add: process_batch_absent write_index_empty)
  next
    case (error e)
    with r show ?thesis by simp
  next
    case (loaded w vit)
    with r have "write_index folder (length (scan fs folder))
        (List.map_filter (embed fs (resize_short_side d) vit) (scan fs folder),
         filter (\<lambda>p. embed fs (resize_short_side d) vit p \<noteq> None) (scan fs folder)) = Inr out"
      by (simp add: process_batch_loaded)
    from write_index_saved [OF this sv] folder loaded show ?thesis
      by (intro that [of folder w vit]) simp_all
  qed
qed

subsection \<open>The concrete inputs, evaluated\<close>

lemma demo_exists:
  "path_exists demo_fs weight_file" "path_exists demo_fs ''gallery''"
  "path_exists demo_fs ''demo_data''"
  by (simp_all add: path_exists_def demo_fs_def weight_file_def)

lemma demo_only_exists:
  "path_exists demo_only_fs weight_file" "\<not> path_exists demo_only_fs ''gallery''"
  "path_exists demo_only_fs ''demo_data''"
  by (simp_all add: path_exists_def demo_only_fs_def demo_fs_def weight_file_def)

lemma no_weights_exists:
  "\<not> path_exists no_weights_fs weight_file" "path_exists no_weights_fs ''gallery''"
  by (simp_all add: path_exists_def no_weights_fs_def demo_fs_def weight_file_def)

lemma demo_sort:
  "sort [''gallery/b.jpg'', ''gallery/stub.jpg'', ''gallery/odd.jpg'', ''gallery/bad.jpg'',
         ''gallery/a.png''] =
     [''gallery/a.png'', ''gallery/b.jpg'', ''gallery/bad.jpg'', ''gallery/odd.jpg'',
      ''gallery/stub.jpg'']"
  by code_simp

lemma demo_scan:
  "scan demo_fs ''gallery'' =
     [''gallery/a.png'', ''gallery/b.jpg'', ''gallery/bad.jpg'', ''gallery/odd.jpg'',
      ''gallery/stub.jpg'']"
proof -
  have "glob demo_fs ''gallery'' ''.jpg'' =
          [''gallery/b.jpg'', ''gallery/stub.jpg'', ''gallery/odd.jpg'', ''gallery/bad.jpg'']"
    by (simp add: glob_def demo_fs_def hidden_def endswith_def os_path_join_def)
  moreover have "glob demo_fs ''gallery'' ''.png'' = [''gallery/a.png'']"
    by (simp add: glob_def demo_fs_def hidden_def endswith_def os_path_join_def)
  ultimately show ?thesis
    by (simp only: scan_def append.simps demo_sort)
qed

lemma no_weights_scan:
  "scan no_weights_fs ''gallery'' =
     [''gallery/a.png'', ''gallery/b.jpg'', ''gallery/bad.jpg'', ''gallery/odd.jpg'',
      ''gallery/stub.jpg'']"
proof -
  have "glob no_weights_fs ''gallery'' ext = glob demo_fs ''gallery'' ext" for ext
    by (simp add: glob_def no_weights_fs_def)
  then show ?thesis by (simp add: scan_def demo_scan [unfolded scan_def])
qed

lemma five_chunks:
  "make_chunks batch_size [a, b, c, d, e] = [[a, b, c, d, e]]"
  by (simp add: make_chunks_def batch_size_def py_range.simps [of 0] py_range.simps [of 100])

lemma demo_getsize:
  "getsize demo_fs ''gallery/a.png'' = Inr 2048"
  "getsize demo_fs ''gallery/b.jpg'' = Inr 51200"
  "getsize demo_fs ''gallery/bad.jpg'' = Inr 4000"
  "getsize demo_fs ''gallery/odd.jpg'' = Inr 7000"
  "getsize demo_fs ''gallery/stub.jpg'' = Inr 500"
  by (simp_all add: getsize_def demo_fs_def)

lemma demo_loaded:
  "np_load demo_deps weight_file = Inr ()" "Dinov2Numpy demo_deps () = Inr demo_vit"
  by (simp_all add: demo_deps_def)

subsection \<open>Choosing the folder\<close>

text \<open>
  Claim C4. Whenever the folder \<open>gallery\<close> exists it is the source folder, whether
  or not \<open>demo_data\<close> exists too; \<open>demo_data\<close> is the source folder exactly when
  \<open>gallery\<close> is absent and \<open>demo_data\<close> exists. The run then works on the chosen
  folder.
\<close>

theorem source_folder_priority:
  "(path_exists fs ''gallery'' \<longrightarrow>
      select_target_folder fs = Some ''gallery'' \<and>
      build_index_fast d fs completion = index_folder d fs completion ''gallery'') \<and>
   (select_target_folder fs = Some ''demo_data'' \<longleftrightarrow>
      \<not> path_exists fs ''gallery'' \<and> path_exists fs ''demo_data'') \<and>
   (\<not> path_exists fs ''gallery'' \<and> path_exists fs ''demo_data'' \<longrightarrow>
      build_index_fast d fs completion = index_folder d fs completion ''demo_data'')"
  by (simp add: select_target_folder_def build_index_fast_def)

theorem source_folder_priority_witness:
  "path_exists demo_fs ''gallery'' \<and> path_exists demo_fs ''demo_data'' \<and>
   select_target_folder demo_fs = Some ''gallery'' \<and>
   build_index_fast demo_deps demo_fs [0] = index_folder demo_deps demo_fs [0] ''gallery'' \<and>
   \<not> path_exists demo_only_fs ''gallery'' \<and> path_exists demo_only_fs ''demo_data'' \<and>
   select_target_folder demo_only_fs = Some ''demo_data'' \<and>
   build_index_fast demo_deps demo_only_fs [0] = index_folder demo_deps demo_only_fs [0] ''demo_data''"
  using source_folder_priority [of demo_fs demo_deps "[0]"]
    source_folder_priority [of demo_only_fs demo_deps "[0]"]
  by (simp add: demo_exists demo_only_exists)

text \<open>
  Claim C8. When neither \<open>gallery\<close> nor \<open>demo_data\<close> exists, the run ends with
  the missing-folder message whatever the model, the images and the pool would
  do: nothing is saved and no exception leaves \<open>build_index_fast\<close> or the top
  level.
\<close>

theorem missing_source_abort:
  assumes "\<not> path_exists fs ''gallery''" and "\<not> path_exists fs ''demo_data''"
  shows "build_index_fast d fs completion = Some (Inr \<lparr>report = NoSourceFolder, saved = []\<rparr>) \<and>
         main d fs completion = Some (Inr \<lparr>report = NoSourceFolder, saved = []\<rparr>)"
  using assms by (simp add: main_def build_index_fast_def select_target_folder_def)

theorem missing_source_abort_witness:
  "\<not> path_exists Map.empty ''gallery'' \<and> \<not> path_exists Map.empty ''demo_data'' \<and>
   build_index_fast demo_deps Map.empty [] = Some (Inr \<lparr>report = NoSourceFolder, saved = []\<rparr>) \<and>
   main demo_deps Map.empty [] = Some (Inr \<lparr>report = NoSourceFolder, saved = []\<rparr>)"
  using missing_source_abort [of Map.empty demo_deps "[]"]
  by (simp add: path_exists_def)

lemma demo_batch:
  "process_batch demo_deps demo_fs
     [''gallery/a.png'', ''gallery/b.jpg'', ''gallery/bad.jpg'', ''gallery/odd.jpg'',
      ''gallery/stub.jpg''] =
   Inr ([[[13, 7]], [[13, 7]]], [''gallery/a.png'', ''gallery/b.jpg''])"
  by (simp add: process_batch_def demo_exists demo_deps_def demo_vit_def demo_getsize)

lemma demo_finish: "all_finish [0] (Suc 0)" "all_finish [1, 0] (Suc 0)"
  by (simp_all add: all_finish_def)

lemma demo_run:
  "build_index_fast demo_deps demo_fs [0] =
     Some (Inr \<lparr>report = IndexBuilt ''gallery'' 2 5,
                saved = [(''index_features.npy'', FeatureMatrix [[13, 7], [13, 7]]),
                         (''index_paths.npy'', PathArray [''gallery/a.png'', ''gallery/b.jpg''])]\<rparr>)"
  by (simp add: build_index_fast_def select_target_folder_def demo_exists index_folder_def
      demo_scan five_chunks pool_imap_def demo_batch write_index_def np_concatenate_def)

lemma no_weights_run:
  "build_index_fast demo_deps no_weights_fs [0] =
     Some (Inr \<lparr>report = NoFeatures, saved = []\<rparr>)"
  by (simp add: build_index_fast_def select_target_folder_def no_weights_exists index_folder_def
      no_weights_scan five_chunks pool_imap_def process_batch_absent write_index_def)

subsection \<open>The worker\<close>

lemma embed_undersized:
  "getsize fs p = Inr sz \<Longrightarrow> sz < 1024 \<Longrightarrow> embed fs resize vit p = None"
  by (simp add: embed_def)

lemma zip_contributions:
  "zip (List.map_filter (embed fs resize vit) ps)
       (filter (\<lambda>p. embed fs resize vit p \<noteq> None) ps) =
   concat (map (contribution fs resize vit) ps)"
  by (induction ps) (auto simp: contribution_def split: option.splits)

text \<open>
  Claim C5. Without the weight archive \<open>process_batch\<close> returns two empty lists
  for any chunk and does not raise. So a run never raises and never saves a
  file, whatever it returns is a failure report, and a run that reaches the pool
  ends with the no-features failure message.
\<close>

theorem missing_weight_file:
  assumes "\<not> path_exists fs weight_file"
  shows "process_batch d fs chunk = Inr ([], []) \<and>
    (\<forall>r. build_index_fast d fs completion = Some r \<longrightarrow>
       (\<exists>out. r = Inr out \<and> saved out = [] \<and>
          (report out = NoFeatures \<or> report out = NoSourceFolder \<or>
           (\<exists>folder. report out = NoImages folder)))) \<and>
    (select_target_folder fs = Some folder \<and> scan fs folder \<noteq> [] \<and>
     all_finish completion (length (make_chunks batch_size (scan fs folder))) \<longrightarrow>
       build_index_fast d fs completion = Some (Inr \<lparr>report = NoFeatures, saved = []\<rparr>) \<and>
       main d fs completion = Some (Inr \<lparr>report = NoFeatures, saved = []\<rparr>))"
proof (intro conjI allI impI)
  show "process_batch d fs chunk = Inr ([], [])"
    using assms by (rule process_batch_absent)
next
  fix r
  assume run: "build_index_fast d fs completion = Some r"
  show "\<exists>out. r = Inr out \<and> saved out = [] \<and>
          (report out = NoFeatures \<or> report out = NoSourceFolder \<or>
           (\<exists>folder. report out = NoImages folder))"
  proof (cases "select_target_folder fs")
    case None
    with run show ?thesis by (auto simp: build_index_fast_def)
  next
    case (Some target)
    with run have idx: "index_folder d fs completion target = Some r"
      by (simp add: build_index_fast_def)
    show ?thesis
    proof (cases "scan fs target = []")
      case True
      with idx show ?thesis by (auto simp: index_folder_no_images)
    next
      case False
      from index_folder_returns [OF idx False] assms show ?thesis
        by (simp add: process_batch_absent write_index_empty)
    qed
  qed
next
  assume h: "select_target_folder fs = Some folder \<and> scan fs folder \<noteq> [] \<and>
     all_finish completion (length (make_chunks batch_size (scan fs folder)))"
  then have "index_folder d fs completion folder = Some (Inr \<lparr>report = NoFeatures, saved = []\<rparr>)"
    using assms by (simp add: index_folder_eq process_batch_absent write_index_empty)
  with h show run: "build_index_fast d fs completion = Some (Inr \<lparr>report = NoFeatures, saved = []\<rparr>)"
    by (simp add: build_index_fast_def)
  then show "main d fs completion = Some (Inr \<lparr>report = NoFeatures, saved = []\<rparr>)"
    by (simp add: main_def)
qed

theorem missing_weight_file_witness:
  "\<not> path_exists no_weights_fs weight_file \<and>
   process_batch demo_deps no_weights_fs [''gallery/a.png'', ''gallery/b.jpg''] = Inr ([], []) \<and>
   select_target_folder no_weights_fs = Some ''gallery'' \<and>
   scan no_weights_fs ''gallery'' \<noteq> [] \<and>
   all_finish [0] (length (make_chunks batch_size (scan no_weights_fs ''gallery''))) \<and>
   build_index_fast demo_deps no_weights_fs [0] = Some (Inr \<lparr>report = NoFeatures, saved = []\<rparr>) \<and>
   main demo_deps no_weights_fs [0] = Some (Inr \<lparr>report = NoFeatures, saved = []\<rparr>)"
  using missing_weight_file [of no_weights_fs demo_deps "[''gallery/a.png'', ''gallery/b.jpg'']"
      "[0]" "''gallery''"]
  by (simp add: no_weights_exists no_weights_scan five_chunks demo_finish
      select_target_folder_def)

lemma broken_batch: "process_batch broken_deps demo_fs chunk = Inl ValueError"
  by (simp add: process_batch_def demo_exists broken_deps_def)

lemma demo_resize:
  "resize_short_side demo_deps ''gallery/bad.jpg'' = Inl OSError"
  "resize_short_side demo_deps ''gallery/odd.jpg'' = Inr ''gallery/odd.jpg''"
  "demo_vit ''gallery/odd.jpg'' = Inl ValueError"
  by (simp_all add: demo_deps_def demo_vit_def)

lemma contribution_cases:
  "contribution fs resize vit p = [] \<or> (\<exists>f. contribution fs resize vit p = [(f, p)])"
  by (simp add: contribution_def split: option.splits)

lemma contribution_failed:
  "resize p = Inl e \<Longrightarrow> contribution fs resize vit p = []"
  "resize p = Inr t \<Longrightarrow> vit t = Inl e \<Longrightarrow> contribution fs resize vit p = []"
  by (simp_all add: contribution_def embed_def split: sum.splits)

text \<open>
  Claim C6. An exception of \<open>process_batch\<close> never comes from an image: the call
  raises on a chunk only if it raises on the empty chunk (loading the model).
  Once the model is loaded the call returns, and its result is made of the
  contributions of the paths of the chunk, in order, each contribution being
  nothing or exactly one (feature, path) pair; a path whose preprocessing or
  inference raises contributes nothing.
\<close>

theorem per_image_errors_absorbed:
  "(process_batch d fs chunk = Inl e \<longrightarrow> process_batch d fs [] = Inl e) \<and>
   (path_exists fs weight_file \<and> np_load d weight_file = Inr w \<and> Dinov2Numpy d w = Inr vit \<longrightarrow>
      (\<exists>F P. process_batch d fs chunk = Inr (F, P) \<and> length F = length P \<and>
             zip F P = concat (map (contribution fs (resize_short_side d) vit) chunk))) \<and>
   (contribution fs (resize_short_side d) vit p = [] \<or>
      (\<exists>f. contribution fs (resize_short_side d) vit p = [(f, p)])) \<and>
   (resize_short_side d p = Inl e' \<longrightarrow> contribution fs (resize_short_side d) vit p = []) \<and>
   (resize_short_side d p = Inr t \<and> vit t = Inl e' \<longrightarrow>
      contribution fs (resize_short_side d) vit p = [])"
proof (intro conjI impI)
  assume "process_batch d fs chunk = Inl e"
  then show "process_batch d fs [] = Inl e" by (rule iffD1 [OF process_batch_error])
next
  assume "path_exists fs weight_file \<and> np_load d weight_file = Inr w \<and> Dinov2Numpy d w = Inr vit"
  then have "process_batch d fs chunk =
      Inr (List.map_filter (embed fs (resize_short_side d) vit) chunk,
           filter (\<lambda>p. embed fs (resize_short_side d) vit p \<noteq> None) chunk)"
    by (simp add: process_batch_loaded)
  then show "\<exists>F P. process_batch d fs chunk = Inr (F, P) \<and> length F = length P \<and>
             zip F P = concat (map (contribution fs (resize_short_side d) vit) chunk)"
    using zip_contributions [of fs "resize_short_side d" vit chunk]
      map_filter_length_eq [of "embed fs (resize_short_side d) vit" chunk]
    by simp
next
  show "contribution fs (resize_short_side d) vit p = [] \<or>
      (\<exists>f. contribution fs (resize_short_side d) vit p = [(f, p)])"
    by (rule contribution_cases)
next
  assume "resize_short_side d p = Inl e'"
  then show "contribution fs (resize_short_side d) vit p = []"
    by (rule contribution_failed)
next
  assume "resize_short_side d p = Inr t \<and> vit t = Inl e'"
  then show "contribution fs (resize_short_side d) vit p = []"
    by (simp add: contribution_failed)
qed

lemma demo_batch_two:
  "process_batch demo_deps demo_fs [''gallery/a.png'', ''gallery/bad.jpg''] =
     Inr ([[[13, 7]]], [''gallery/a.png''])"
  by (simp add: process_batch_def demo_exists demo_deps_def demo_vit_def demo_getsize)

theorem per_image_errors_absorbed_witness:
  "process_batch broken_deps demo_fs [''gallery/a.png''] = Inl ValueError \<and>
   process_batch broken_deps demo_fs [] = Inl ValueError \<and>
   path_exists demo_fs weight_file \<and> np_load demo_deps weight_file = Inr () \<and>
   Dinov2Numpy demo_deps () = Inr demo_vit \<and>
   resize_short_side demo_deps ''gallery/bad.jpg'' = Inl OSError \<and>
   contribution demo_fs (resize_short_side demo_deps) demo_vit ''gallery/bad.jpg'' = [] \<and>
   resize_short_side demo_deps ''gallery/odd.jpg'' = Inr ''gallery/odd.jpg'' \<and>
   demo_vit ''gallery/odd.jpg'' = Inl ValueError \<and>
   contribution demo_fs (resize_short_side demo_deps) demo_vit ''gallery/odd.jpg'' = [] \<and>
   process_batch demo_deps demo_fs [''gallery/a.png'', ''gallery/bad.jpg''] =
     Inr ([[[13, 7]]], [''gallery/a.png'']) \<and>
   zip [[[13, 7]]] [''gallery/a.png''] =
     concat (map (contribution demo_fs (resize_short_side demo_deps) demo_vit)
               [''gallery/a.png'', ''gallery/bad.jpg''])"
proof -
  note broken = per_image_errors_absorbed [where d = broken_deps and fs = demo_fs
      and chunk = "[''gallery/a.png'']" and e = ValueError and w = "()" and vit = demo_vit
      and p = "''gallery/bad.jpg''" and e' = OSError and t = "''gallery/odd.jpg''"]
  note bad = per_image_errors_absorbed [where d = demo_deps and fs = demo_fs
      and chunk = "[''gallery/a.png'', ''gallery/bad.jpg'']" and e = ValueError and w = "()"
      and vit = demo_vit and p = "''gallery/bad.jpg''" and e' = OSError
      and t = "''gallery/odd.jpg''"]
  note odd = per_image_errors_absorbed [where d = demo_deps and fs = demo_fs
      and chunk = "[]" and e = ValueError and w = "()" and vit = demo_vit
      and p = "''gallery/odd.jpg''" and e' = ValueError and t = "''gallery/odd.jpg''"]
  have raise: "process_batch broken_deps demo_fs [''gallery/a.png''] = Inl ValueError"
    by (rule broken_batch)
  have c1: "process_batch broken_deps demo_fs [] = Inl ValueError"
    by (rule mp [OF conjunct1 [OF broken] raise])
  have c2: "contribution demo_fs (resize_short_side demo_deps) demo_vit ''gallery/bad.jpg'' = []"
    by (rule mp [OF conjunct1 [OF conjunct2 [OF conjunct2 [OF conjunct2 [OF bad]]]]
          demo_resize(1)])
  have c3: "contribution demo_fs (resize_short_side demo_deps) demo_vit ''gallery/odd.jpg'' = []"
    by (rule mp [OF conjunct2 [OF conjunct2 [OF conjunct2 [OF conjunct2 [OF odd]]]]
          conjI [OF demo_resize(2) demo_resize(3)]])
  have "\<exists>F P. process_batch demo_deps demo_fs [''gallery/a.png'', ''gallery/bad.jpg''] = Inr (F, P) \<and>
      length F = length P \<and>
      zip F P = concat (map (contribution demo_fs (resize_short_side demo_deps) demo_vit)
                  [''gallery/a.png'', ''gallery/bad.jpg''])"
    by (rule mp [OF conjunct1 [OF conjunct2 [OF bad]]
          conjI [OF demo_exists(1) conjI [OF demo_loaded(1) demo_loaded(2)]]])
  then have c4: "zip [[[13, 7]]] [''gallery/a.png''] =
     concat (map (contribution demo_fs (resize_short_side demo_deps) demo_vit)
               [''gallery/a.png'', ''gallery/bad.jpg''])"
    unfolding demo_batch_two by (elim exE conjE) (simp only: sum.inject prod.inject)
  show ?thesis
    by (intro conjI raise c1 c2 c3 c4 demo_exists(1) demo_loaded demo_resize demo_batch_two)
qed

text \<open>
  Claim C2. A path whose file is smaller than 1024 bytes is skipped without
  error: taking it out of a chunk does not change what \<open>process_batch\<close>
  returns, it is not among the paths \<open>process_batch\<close> returns, and it is not in
  the path array a run saves.
\<close>

theorem undersized_never_indexed:
  assumes "getsize fs p = Inr sz" and "sz < 1024"
  shows "process_batch d fs (before @ p # after) = process_batch d fs (before @ after) \<and>
         (process_batch d fs chunk = Inr (F, P) \<longrightarrow> p \<notin> set P) \<and>
         (build_index_fast d fs completion = Some (Inr out) \<longrightarrow>
            p \<notin> set (saved_paths (saved out)))"
proof -
  note none = embed_undersized [OF assms]
  have a: "process_batch d fs (before @ p # after) = process_batch d fs (before @ after)"
    by (cases rule: process_batch_cases [where fs = fs and d = d])
       (simp_all add: process_batch_absent process_batch_loaded none List.map_filter_def)
  have b: "p \<notin> set P" if "process_batch d fs chunk = Inr (F, P)"
    using that
    by (cases rule: process_batch_cases [where fs = fs and d = d])
       (auto simp: process_batch_absent process_batch_loaded none)
  have c: "p \<notin> set (saved_paths (saved out))"
    if run: "build_index_fast d fs completion = Some (Inr out)"
  proof (cases "saved out = []")
    case True
    then show ?thesis by simp
  next
    case False
    from run False show ?thesis
      by (rule build_index_fast_saved) (simp add: none)
  qed
  from a b c show ?thesis by blast
qed

theorem undersized_never_indexed_witness:
  "getsize demo_fs ''gallery/stub.jpg'' = Inr 500 \<and> (500::nat) < 1024 \<and>
   process_batch demo_deps demo_fs ([''gallery/a.png''] @ ''gallery/stub.jpg'' # [''gallery/b.jpg'']) =
     process_batch demo_deps demo_fs ([''gallery/a.png''] @ [''gallery/b.jpg'']) \<and>
   process_batch demo_deps demo_fs
     [''gallery/a.png'', ''gallery/b.jpg'', ''gallery/bad.jpg'', ''gallery/odd.jpg'',
      ''gallery/stub.jpg''] =
     Inr ([[[13, 7]], [[13, 7]]], [''gallery/a.png'', ''gallery/b.jpg'']) \<and>
   ''gallery/stub.jpg'' \<notin> set [''gallery/a.png'', ''gallery/b.jpg''] \<and>
   build_index_fast demo_deps demo_fs [0] =
     Some (Inr \<lparr>report = IndexBuilt ''gallery'' 2 5,
                saved = [(''index_features.npy'', FeatureMatrix [[13, 7], [13, 7]]),
                         (''index_paths.npy'', PathArray [''gallery/a.png'', ''gallery/b.jpg''])]\<rparr>) \<and>
   ''gallery/stub.jpg'' \<notin>
     set (saved_paths [(''index_features.npy'', FeatureMatrix [[13, 7], [13::nat, 7]]),
                       (''index_paths.npy'', PathArray [''gallery/a.png'', ''gallery/b.jpg''])])"
  using undersized_never_indexed [of demo_fs "''gallery/stub.jpg''" 500 demo_deps
      "[''gallery/a.png'']" "[''gallery/b.jpg'']"
      "[''gallery/a.png'', ''gallery/b.jpg'', ''gallery/bad.jpg'', ''gallery/odd.jpg'',
        ''gallery/stub.jpg'']"
      "[[[13, 7]], [[13, 7]]]" "[''gallery/a.png'', ''gallery/b.jpg'']" "[0]"]
  by (simp add: demo_getsize demo_batch demo_run)

subsection \<open>The saved index\<close>

lemma sorted_scan: "sorted (scan fs folder)"
  by (simp add: scan_def)

lemma one_row_nth:
  assumes "\<forall>f\<in>set arrays. length f = 1" "i < length arrays"
  shows "arrays ! i = [concat arrays ! i]"
proof -
  from assms have "length (arrays ! i) = 1" by simp
  then obtain r where r: "arrays ! i = [r]" by (cases "arrays ! i") auto
  from assms have "concat arrays ! i = hd (arrays ! i)"
    by (simp add: one_row_concat)
  with r show ?thesis by simp
qed

lemma embed_filter_nth:
  assumes "i < length (filter (\<lambda>p. embed fs resize vit p \<noteq> None) ps)"
  shows "embed fs resize vit (filter (\<lambda>p. embed fs resize vit p \<noteq> None) ps ! i) =
           Some (List.map_filter (embed fs resize vit) ps ! i)"
proof -
  let ?P = "filter (\<lambda>p. embed fs resize vit p \<noteq> None) ps"
  from assms have "?P ! i \<in> set ?P" by (rule nth_mem)
  then have "embed fs resize vit (?P ! i) \<noteq> None" by simp
  moreover have "List.map_filter (embed fs resize vit) ps ! i = the (embed fs resize vit (?P ! i))"
    using assms by (simp add: map_filter_as_map)
  ultimately show ?thesis by auto
qed

lemma embed_features_one_row:
  assumes "\<forall>t f. vit t = Inr f \<longrightarrow> length f = 1"
  shows "\<forall>f\<in>set (List.map_filter (embed fs resize vit) ps). length f = 1"
proof
  fix f assume "f \<in> set (List.map_filter (embed fs resize vit) ps)"
  then obtain p where "embed fs resize vit p = Some f"
    by (auto simp: map_filter_as_map)
  then obtain t where "vit t = Inr f" using embed_Some by blast
  with assms show "length f = 1" by blast
qed

text \<open>
  Claim C1. \<open>process_batch\<close> returns two lists of one length. A run that saves
  anything saves the two arrays together, made from a feature list and a path
  list of one length; and when the model returns one row per image, the saved
  matrix has as many rows as the path array has entries and row \<open>i\<close> is the
  feature of path \<open>i\<close>.
\<close>

theorem alignment_invariant:
  "(process_batch d fs chunk = Inr (F, P) \<longrightarrow> length F = length P) \<and>
   (build_index_fast d fs completion = Some (Inr out) \<and> saved out \<noteq> [] \<longrightarrow>
      (\<exists>Fs Ps. length Fs = length Ps \<and>
         saved out = [(''index_features.npy'', FeatureMatrix (concat Fs)),
                      (''index_paths.npy'', PathArray Ps)])) \<and>
   (build_index_fast d fs completion = Some (Inr out) \<and> saved out \<noteq> [] \<and>
    (\<forall>w vit t f. Dinov2Numpy d w = Inr vit \<and> vit t = Inr f \<longrightarrow> length f = 1) \<longrightarrow>
      (\<exists>w vit M Ps.
         np_load d weight_file = Inr w \<and> Dinov2Numpy d w = Inr vit \<and>
         saved out = [(''index_features.npy'', FeatureMatrix M),
                      (''index_paths.npy'', PathArray Ps)] \<and>
         length M = length Ps \<and>
         (\<forall>i<length Ps. embed fs (resize_short_side d) vit (Ps ! i) = Some [M ! i])))"
proof (intro conjI impI)
  assume "process_batch d fs chunk = Inr (F, P)"
  then show "length F = length P" by (rule process_batch_lengths)
next
  assume "build_index_fast d fs completion = Some (Inr out) \<and> saved out \<noteq> []"
  then have run: "build_index_fast d fs completion = Some (Inr out)" and sv: "saved out \<noteq> []"
    by simp_all
  from run sv obtain folder w vit where
    "np_load d weight_file = Inr w" "Dinov2Numpy d w = Inr vit"
    and out: "out = \<lparr>report = IndexBuilt folder
                (length (filter (\<lambda>p. embed fs (resize_short_side d) vit p \<noteq> None) (scan fs folder)))
                (length (scan fs folder)),
             saved = [(''index_features.npy'',
                        FeatureMatrix (concat (List.map_filter (embed fs (resize_short_side d) vit) (scan fs folder)))),
                      (''index_paths.npy'',
                        PathArray (filter (\<lambda>p. embed fs (resize_short_side d) vit p \<noteq> None) (scan fs folder)))]\<rparr>"
    by (rule build_index_fast_saved)
  let ?E = "embed fs (resize_short_side d) vit"
  from out have "saved out =
      [(''index_features.npy'', FeatureMatrix (concat (List.map_filter ?E (scan fs folder)))),
       (''index_paths.npy'', PathArray (filter (\<lambda>p. ?E p \<noteq> None) (scan fs folder)))]"
    by simp
  moreover have "length (List.map_filter ?E (scan fs folder)) =
      length (filter (\<lambda>p. ?E p \<noteq> None) (scan fs folder))"
    by (rule map_filter_length_eq)
  ultimately show "\<exists>Fs Ps. length Fs = length Ps \<and>
         saved out = [(''index_features.npy'', FeatureMatrix (concat Fs)),
                      (''index_paths.npy'', PathArray Ps)]"
    by blast
next
  assume h: "build_index_fast d fs completion = Some (Inr out) \<and> saved out \<noteq> [] \<and>
    (\<forall>w vit t f. Dinov2Numpy d w = Inr vit \<and> vit t = Inr f \<longrightarrow> length f = 1)"
  then have run: "build_index_fast d fs completion = Some (Inr out)" and sv: "saved out \<noteq> []"
    by simp_all
  from run sv obtain folder w vit where
    w: "np_load d weight_file = Inr w" and vit: "Dinov2Numpy d w = Inr vit"
    and out: "out = \<lparr>report = IndexBuilt folder
                (length (filter (\<lambda>p. embed fs (resize_short_side d) vit p \<noteq> None) (scan fs folder)))
                (length (scan fs folder)),
             saved = [(''index_features.npy'',
                        FeatureMatrix (concat (List.map_filter (embed fs (resize_short_side d) vit) (scan fs folder)))),
                      (''index_paths.npy'',
                        PathArray (filter (\<lambda>p. embed fs (resize_short_side d) vit p \<noteq> None) (scan fs folder)))]\<rparr>"
    by (rule build_index_fast_saved)
  let ?E = "embed fs (resize_short_side d) vit"
  let ?Fs = "List.map_filter ?E (scan fs folder)"
  let ?Ps = "filter (\<lambda>p. ?E p \<noteq> None) (scan fs folder)"
  from h vit have "\<forall>t f. vit t = Inr f \<longrightarrow> length f = 1" by blast
  then have rows: "\<forall>f\<in>set ?Fs. length f = 1" by (rule embed_features_one_row)
  have len: "length ?Fs = length ?Ps" by (rule map_filter_length_eq)
  from rows have "length (concat ?Fs) = length ?Fs" by (simp add: one_row_concat)
  with len have a: "length (concat ?Fs) = length ?Ps" by simp
  have b: "?E (?Ps ! i) = Some [concat ?Fs ! i]" if "i < length ?Ps" for i
  proof -
    from that have "?E (?Ps ! i) = Some (?Fs ! i)" by (rule embed_filter_nth)
    moreover from rows that len have "?Fs ! i = [concat ?Fs ! i]"
      by (intro one_row_nth) simp_all
    ultimately show ?thesis by simp
  qed
  from out have "saved out = [(''index_features.npy'', FeatureMatrix (concat ?Fs)),
                    (''index_paths.npy'', PathArray ?Ps)]" by simp
  with w vit a b show "\<exists>w vit M Ps.
         np_load d weight_file = Inr w \<and> Dinov2Numpy d w = Inr vit \<and>
         saved out = [(''index_features.npy'', FeatureMatrix M),
                      (''index_paths.npy'', PathArray Ps)] \<and>
         length M = length Ps \<and>
         (\<forall>i<length Ps. embed fs (resize_short_side d) vit (Ps ! i) = Some [M ! i])"
    by blast
qed

lemma demo_run_index: "build_index_fast demo_deps demo_fs [0] = Some (Inr demo_index)"
  by (simp add: demo_run demo_index_def)

lemma demo_index_saved:
  "saved demo_index =
     [(''index_features.npy'', FeatureMatrix [[13, 7], [13, 7]]),
      (''index_paths.npy'', PathArray [''gallery/a.png'', ''gallery/b.jpg''])]"
  "saved demo_index \<noteq> []"
  by (simp_all add: demo_index_def)

lemma demo_one_row:
  "\<forall>w vit t f. Dinov2Numpy demo_deps w = Inr vit \<and> vit t = Inr f \<longrightarrow> length f = 1"
  by (auto simp: demo_deps_def demo_vit_def split: if_splits)

theorem alignment_invariant_witness:
  "process_batch demo_deps demo_fs
     [''gallery/a.png'', ''gallery/b.jpg'', ''gallery/bad.jpg'', ''gallery/odd.jpg'',
      ''gallery/stub.jpg''] =
     Inr ([[[13, 7]], [[13, 7]]], [''gallery/a.png'', ''gallery/b.jpg'']) \<and>
   length [[[13, 7]], [[13::nat, 7]]] = length [''gallery/a.png'', ''gallery/b.jpg''] \<and>
   build_index_fast demo_deps demo_fs [0] = Some (Inr demo_index) \<and>
   saved demo_index \<noteq> [] \<and>
   Dinov2Numpy demo_deps () = Inr demo_vit \<and>
   demo_vit ''gallery/a.png'' = Inr [[13, 7]] \<and> length [[13::nat, 7]] = 1 \<and>
   (\<exists>Fs Ps. length Fs = length Ps \<and>
      saved demo_index = [(''index_features.npy'', FeatureMatrix (concat Fs)),
                          (''index_paths.npy'', PathArray Ps)]) \<and>
   (\<exists>w vit.
      np_load demo_deps weight_file = Inr w \<and> Dinov2Numpy demo_deps w = Inr vit \<and>
      saved demo_index = [(''index_features.npy'', FeatureMatrix [[13, 7], [13, 7]]),
                          (''index_paths.npy'', PathArray [''gallery/a.png'', ''gallery/b.jpg''])] \<and>
      embed demo_fs (resize_short_side demo_deps) vit ''gallery/a.png'' = Some [[13, 7]] \<and>
      embed demo_fs (resize_short_side demo_deps) vit ''gallery/b.jpg'' = Some [[13, 7]])"
proof -
  note inst = alignment_invariant [where d = demo_deps and fs = demo_fs
      and chunk = "[''gallery/a.png'', ''gallery/b.jpg'', ''gallery/bad.jpg'', ''gallery/odd.jpg'',
        ''gallery/stub.jpg'']"
      and F = "[[[13, 7]], [[13, 7]]]" and P = "[''gallery/a.png'', ''gallery/b.jpg'']"
      and completion = "[0]" and out = demo_index]
  have a: "length [[[13, 7]], [[13::nat, 7]]] = length [''gallery/a.png'', ''gallery/b.jpg'']"
    by (rule mp [OF conjunct1 [OF inst] demo_batch])
  have b: "\<exists>Fs Ps. length Fs = length Ps \<and>
      saved demo_index = [(''index_features.npy'', FeatureMatrix (concat Fs)),
                          (''index_paths.npy'', PathArray Ps)]"
    by (rule mp [OF conjunct1 [OF conjunct2 [OF inst]]
          conjI [OF demo_run_index demo_index_saved(2)]])
  have "\<exists>w vit M Ps.
      np_load demo_deps weight_file = Inr w \<and> Dinov2Numpy demo_deps w = Inr vit \<and>
      saved demo_index = [(''index_features.npy'', FeatureMatrix M),
                          (''index_paths.npy'', PathArray Ps)] \<and>
      length M = length Ps \<and>
      (\<forall>i<length Ps. embed demo_fs (resize_short_side demo_deps) vit (Ps ! i) = Some [M ! i])"
    by (rule mp [OF conjunct2 [OF conjunct2 [OF inst]]
          conjI [OF demo_run_index conjI [OF demo_index_saved(2) demo_one_row]]])
  then obtain w vit M Ps where
    w: "np_load demo_deps weight_file = Inr w" "Dinov2Numpy demo_deps w = Inr vit"
    and sv: "saved demo_index = [(''index_features.npy'', FeatureMatrix M),
                                  (''index_paths.npy'', PathArray Ps)]"
    and rows: "\<forall>i<length Ps. embed demo_fs (resize_short_side demo_deps) vit (Ps ! i) = Some [M ! i]"
    by blast
  from sv have M: "M = [[13, 7], [13, 7]]" and Ps: "Ps = [''gallery/a.png'', ''gallery/b.jpg'']"
    by (simp_all add: demo_index_saved(1))
  have "(0::nat) < length Ps" "(1::nat) < length Ps" by (simp_all add: Ps)
  with rows have "embed demo_fs (resize_short_side demo_deps) vit (Ps ! 0) = Some [M ! 0]"
    and "embed demo_fs (resize_short_side demo_deps) vit (Ps ! 1) = Some [M ! 1]"
    by blast+
  then have e: "embed demo_fs (resize_short_side demo_deps) vit ''gallery/a.png'' = Some [[13, 7]]"
    "embed demo_fs (resize_short_side demo_deps) vit ''gallery/b.jpg'' = Some [[13, 7]]"
    by (simp_all add: M Ps)
  from w sv e have c: "\<exists>w vit.
      np_load demo_deps weight_file = Inr w \<and> Dinov2Numpy demo_deps w = Inr vit \<and>
      saved demo_index = [(''index_features.npy'', FeatureMatrix [[13, 7], [13, 7]]),
                          (''index_paths.npy'', PathArray [''gallery/a.png'', ''gallery/b.jpg''])] \<and>
      embed demo_fs (resize_short_side demo_deps) vit ''gallery/a.png'' = Some [[13, 7]] \<and>
      embed demo_fs (resize_short_side demo_deps) vit ''gallery/b.jpg'' = Some [[13, 7]]"
    unfolding M Ps by blast
  show ?thesis
    by (intro conjI demo_batch a demo_run_index demo_index_saved(2) demo_loaded(2) b c)
       (simp_all add: demo_vit_def)
qed

subsection \<open>The index writer\<close>

lemma make_chunks_single:
  assumes "xs \<noteq> []" "length xs \<le> 100"
  shows "make_chunks batch_size xs = [xs]"
proof -
  from assms have "py_range 0 (length xs) 100 = [0]"
    by (simp add: py_range.simps [of 0] py_range.simps [of 100])
  with assms show ?thesis by (simp add: make_chunks_def batch_size_def)
qed

lemma write_index_rows:
  assumes ne: "all_features \<noteq> []"
    and rows: "\<forall>f\<in>set all_features. \<exists>row. f = [row] \<and> length row = D"
  shows "write_index folder n (all_features, valid_paths) =
           Inr \<lparr>report = IndexBuilt folder (length valid_paths) n,
                saved = [(''index_features.npy'', FeatureMatrix (concat all_features)),
                         (''index_paths.npy'', PathArray valid_paths)]\<rparr>"
    and "length (concat all_features) = length all_features"
    and "\<forall>row\<in>set (concat all_features). length row = D"
proof -
  from rows have w: "\<forall>f\<in>set all_features. \<forall>r\<in>set f. length r = D" by fastforce
  with ne have "np_concatenate all_features = Inr (concat all_features)"
    by (rule np_concatenate_uniform)
  with ne show "write_index folder n (all_features, valid_paths) =
           Inr \<lparr>report = IndexBuilt folder (length valid_paths) n,
                saved = [(''index_features.npy'', FeatureMatrix (concat all_features)),
                         (''index_paths.npy'', PathArray valid_paths)]\<rparr>"
    by (simp add: write_index_def)
  from rows have "\<forall>f\<in>set all_features. length f = 1" by fastforce
  then show "length (concat all_features) = length all_features"
    by (simp add: one_row_concat)
  from w show "\<forall>row\<in>set (concat all_features). length row = D" by auto
qed

lemma embed_features_rows:
  assumes "\<forall>t f. vit t = Inr f \<longrightarrow> (\<exists>row. f = [row] \<and> length row = D)"
  shows "\<forall>f\<in>set (List.map_filter (embed fs resize vit) ps). \<exists>row. f = [row] \<and> length row = D"
proof
  fix f assume "f \<in> set (List.map_filter (embed fs resize vit) ps)"
  then obtain p where "embed fs resize vit p = Some f"
    by (auto simp: map_filter_as_map)
  then obtain t where "vit t = Inr f" using embed_Some by blast
  with assms show "\<exists>row. f = [row] \<and> length row = D" by blast
qed

lemma build_index_fast_loaded:
  assumes "select_target_folder fs = Some folder" "scan fs folder \<noteq> []"
    and "all_finish completion (length (make_chunks batch_size (scan fs folder)))"
    and "path_exists fs weight_file" "np_load d weight_file = Inr w" "Dinov2Numpy d w = Inr vit"
  shows "build_index_fast d fs completion =
           Some (write_index folder (length (scan fs folder))
                  (List.map_filter (embed fs (resize_short_side d) vit) (scan fs folder),
                   filter (\<lambda>p. embed fs (resize_short_side d) vit p \<noteq> None) (scan fs folder)))"
  using assms by (simp add: build_index_fast_def index_folder_eq process_batch_loaded)

text \<open>
  Claim C7. With no feature the index writer returns the no-features failure
  report, raises nothing and saves nothing. With \<open>N > 0\<close> features of one row of
  width \<open>D\<close> each and as many paths, it saves the features appended row by row,
  an \<open>N \<times> D\<close> matrix, together with the \<open>N\<close> paths. A run that reaches the writer
  does the one or the other according to whether no image or some image of the
  scanned folder was embedded.
\<close>

theorem global_emptiness:
  "write_index folder n ([], valid_paths) = Inr \<lparr>report = NoFeatures, saved = []\<rparr> \<and>
   (all_features \<noteq> [] \<and> (\<forall>f\<in>set all_features. \<exists>row. f = [row] \<and> length row = D) \<and>
    length valid_paths = length all_features \<longrightarrow>
      write_index folder n (all_features, valid_paths) =
        Inr \<lparr>report = IndexBuilt folder (length valid_paths) n,
             saved = [(''index_features.npy'', FeatureMatrix (concat all_features)),
                      (''index_paths.npy'', PathArray valid_paths)]\<rparr> \<and>
      length (concat all_features) = length valid_paths \<and>
      (\<forall>row\<in>set (concat all_features). length row = D)) \<and>
   (select_target_folder fs = Some folder \<and> scan fs folder \<noteq> [] \<and>
    all_finish completion (length (make_chunks batch_size (scan fs folder))) \<and>
    path_exists fs weight_file \<and> np_load d weight_file = Inr w \<and> Dinov2Numpy d w = Inr vit \<longrightarrow>
      (filter (\<lambda>p. embed fs (resize_short_side d) vit p \<noteq> None) (scan fs folder) = [] \<longrightarrow>
         build_index_fast d fs completion = Some (Inr \<lparr>report = NoFeatures, saved = []\<rparr>)) \<and>
      (filter (\<lambda>p. embed fs (resize_short_side d) vit p \<noteq> None) (scan fs folder) \<noteq> [] \<and>
       (\<forall>t f. vit t = Inr f \<longrightarrow> (\<exists>row. f = [row] \<and> length row = D)) \<longrightarrow>
         build_index_fast d fs completion =
           Some (Inr \<lparr>report = IndexBuilt folder
                         (length (filter (\<lambda>p. embed fs (resize_short_side d) vit p \<noteq> None)
                                   (scan fs folder)))
                         (length (scan fs folder)),
                       saved = [(''index_features.npy'',
                                 FeatureMatrix (concat (List.map_filter
                                   (embed fs (resize_short_side d) vit) (scan fs folder)))),
                                (''index_paths.npy'',
                                 PathArray (filter (\<lambda>p. embed fs (resize_short_side d) vit p \<noteq> None)
                                   (scan fs folder)))]\<rparr>) \<and>
         length (concat (List.map_filter (embed fs (resize_short_side d) vit) (scan fs folder))) =
           length (filter (\<lambda>p. embed fs (resize_short_side d) vit p \<noteq> None) (scan fs folder)) \<and>
         (\<forall>row\<in>set (concat (List.map_filter (embed fs (resize_short_side d) vit)
                                (scan fs folder))). length row = D)))"
proof -
  let ?E = "embed fs (resize_short_side d) vit"
  let ?Fs = "List.map_filter ?E (scan fs folder)"
  let ?Ps = "filter (\<lambda>p. ?E p \<noteq> None) (scan fs folder)"
  have len: "length ?Fs = length ?Ps" by (rule map_filter_length_eq)
  have p1: "write_index folder n ([], valid_paths) = Inr \<lparr>report = NoFeatures, saved = []\<rparr>"
    by (rule write_index_empty)
  have p2: "write_index folder n (all_features, valid_paths) =
        Inr \<lparr>report = IndexBuilt folder (length valid_paths) n,
             saved = [(''index_features.npy'', FeatureMatrix (concat all_features)),
                      (''index_paths.npy'', PathArray valid_paths)]\<rparr> \<and>
      length (concat all_features) = length valid_paths \<and>
      (\<forall>row\<in>set (concat all_features). length row = D)"
    if "all_features \<noteq> [] \<and> (\<forall>f\<in>set all_features. \<exists>row. f = [row] \<and> length row = D) \<and>
        length valid_paths = length all_features"
  proof -
    from that have ne: "all_features \<noteq> []"
      and rows: "\<forall>f\<in>set all_features. \<exists>row. f = [row] \<and> length row = D"
      and len': "length valid_paths = length all_features"
      by simp_all
    from write_index_rows(1) [OF ne rows, of folder n valid_paths]
      write_index_rows(2,3) [OF ne rows] len'
    show ?thesis by simp
  qed
  have p3: "build_index_fast d fs completion = Some (Inr \<lparr>report = NoFeatures, saved = []\<rparr>)"
    if h: "select_target_folder fs = Some folder \<and> scan fs folder \<noteq> [] \<and>
      all_finish completion (length (make_chunks batch_size (scan fs folder))) \<and>
      path_exists fs weight_file \<and> np_load d weight_file = Inr w \<and> Dinov2Numpy d w = Inr vit"
      and e: "?Ps = []"
  proof -
    from e len have "?Fs = []" by simp
    with h e show ?thesis
      by (simp add: build_index_fast_loaded [of fs folder completion d w vit] write_index_empty)
  qed
  have p4: "build_index_fast d fs completion =
           Some (Inr \<lparr>report = IndexBuilt folder (length ?Ps) (length (scan fs folder)),
                       saved = [(''index_features.npy'', FeatureMatrix (concat ?Fs)),
                                (''index_paths.npy'', PathArray ?Ps)]\<rparr>) \<and>
         length (concat ?Fs) = length ?Ps \<and> (\<forall>row\<in>set (concat ?Fs). length row = D)"
    if h: "select_target_folder fs = Some folder \<and> scan fs folder \<noteq> [] \<and>
      all_finish completion (length (make_chunks batch_size (scan fs folder))) \<and>
      path_exists fs weight_file \<and> np_load d weight_file = Inr w \<and> Dinov2Numpy d w = Inr vit"
      and ne: "?Ps \<noteq> [] \<and> (\<forall>t f. vit t = Inr f \<longrightarrow> (\<exists>row. f = [row] \<and> length row = D))"
  proof -
    from ne len have fne: "?Fs \<noteq> []" by auto
    from ne have rows: "\<forall>f\<in>set ?Fs. \<exists>row. f = [row] \<and> length row = D"
      by (intro embed_features_rows) simp
    from h have "build_index_fast d fs completion =
        Some (write_index folder (length (scan fs folder)) (?Fs, ?Ps))"
      by (simp add: build_index_fast_loaded [of fs folder completion d w vit])
    with write_index_rows(1) [OF fne rows, of folder "length (scan fs folder)" ?Ps]
      write_index_rows(2,3) [OF fne rows] len
    show ?thesis by simp
  qed
  from p1 p2 p3 p4 show ?thesis by blast
qed

lemma stub_facts:
  "path_exists stub_fs weight_file" "select_target_folder stub_fs = Some ''gallery''"
  "getsize stub_fs ''gallery/stub.jpg'' = Inr 500"
  by (simp_all add: stub_fs_def demo_fs_def path_exists_def weight_file_def
      select_target_folder_def getsize_def)

lemma stub_scan: "scan stub_fs ''gallery'' = [''gallery/stub.jpg'']"
  by (simp add: scan_def glob_def stub_fs_def hidden_def endswith_def os_path_join_def)

lemma stub_filter:
  "filter (\<lambda>p. embed stub_fs (resize_short_side demo_deps) demo_vit p \<noteq> None)
     (scan stub_fs ''gallery'') = []"
  by (simp add: stub_scan embed_undersized [OF stub_facts(3)])

lemma demo_select: "select_target_folder demo_fs = Some ''gallery''"
  by (simp add: select_target_folder_def demo_exists)

lemma demo_embedded:
  "List.map_filter (embed demo_fs (resize_short_side demo_deps) demo_vit) (scan demo_fs ''gallery'') =
     [[[13, 7]], [[13, 7]]]"
  "filter (\<lambda>p. embed demo_fs (resize_short_side demo_deps) demo_vit p \<noteq> None)
     (scan demo_fs ''gallery'') = [''gallery/a.png'', ''gallery/b.jpg'']"
  using process_batch_loaded [OF demo_exists(1) demo_loaded, of "scan demo_fs ''gallery''"]
  by (simp_all only: demo_scan demo_batch sum.inject prod.inject)

lemma demo_rows:
  "\<forall>t f. demo_vit t = Inr f \<longrightarrow> (\<exists>row. f = [row] \<and> length row = 2)"
  by (auto simp: demo_vit_def split: if_splits)

lemma demo_all_finish:
  "all_finish [0] (length (make_chunks batch_size (scan demo_fs ''gallery'')))"
  "all_finish [0] (length (make_chunks batch_size (scan stub_fs ''gallery'')))"
  by (simp_all add: demo_scan stub_scan make_chunks_single demo_finish)

theorem global_emptiness_witness:
  "write_index ''gallery'' 5 ([], [] :: string list) =
     Inr (\<lparr>report = NoFeatures, saved = []\<rparr> :: nat outcome) \<and>
   [[[13, 7]], [[13::nat, 7]]] \<noteq> [] \<and> length [13::nat, 7] = 2 \<and>
   length [''gallery/a.png'', ''gallery/b.jpg''] = length [[[13, 7]], [[13::nat, 7]]] \<and>
   write_index ''gallery'' 5 ([[[13, 7]], [[13, 7]]], [''gallery/a.png'', ''gallery/b.jpg'']) =
     Inr demo_index \<and>
   select_target_folder stub_fs = Some ''gallery'' \<and> scan stub_fs ''gallery'' \<noteq> [] \<and>
   all_finish [0] (length (make_chunks batch_size (scan stub_fs ''gallery''))) \<and>
   path_exists stub_fs weight_file \<and>
   filter (\<lambda>p. embed stub_fs (resize_short_side demo_deps) demo_vit p \<noteq> None)
     (scan stub_fs ''gallery'') = [] \<and>
   build_index_fast demo_deps stub_fs [0] = Some (Inr \<lparr>report = NoFeatures, saved = []\<rparr>) \<and>
   select_target_folder demo_fs = Some ''gallery'' \<and> scan demo_fs ''gallery'' \<noteq> [] \<and>
   all_finish [0] (length (make_chunks batch_size (scan demo_fs ''gallery''))) \<and>
   path_exists demo_fs weight_file \<and> np_load demo_deps weight_file = Inr () \<and>
   Dinov2Numpy demo_deps () = Inr demo_vit \<and>
   filter (\<lambda>p. embed demo_fs (resize_short_side demo_deps) demo_vit p \<noteq> None)
     (scan demo_fs ''gallery'') \<noteq> [] \<and>
   demo_vit ''gallery/a.png'' = Inr [[13, 7]] \<and>
   build_index_fast demo_deps demo_fs [0] = Some (Inr demo_index)"
proof -
  note stub = global_emptiness [where folder = "''gallery''" and n = 5
      and valid_paths = "[''gallery/a.png'', ''gallery/b.jpg'']"
      and all_features = "[[[13, 7]], [[13::nat, 7]]]" and D = 2
      and fs = stub_fs and completion = "[0]" and d = demo_deps and w = "()" and vit = demo_vit]
  note demo = global_emptiness [where folder = "''gallery''" and n = 5
      and valid_paths = "[]" and all_features = "[[[13, 7]], [[13::nat, 7]]]" and D = 2
      and fs = demo_fs and completion = "[0]" and d = demo_deps and w = "()" and vit = demo_vit]
  have rows: "\<forall>f\<in>set [[[13, 7]], [[13::nat, 7]]]. \<exists>row. f = [row] \<and> length row = 2"
    by simp
  have ne: "[[[13, 7]], [[13::nat, 7]]] \<noteq> []" by simp
  have len: "length [''gallery/a.png'', ''gallery/b.jpg''] = length [[[13, 7]], [[13::nat, 7]]]"
    by simp
  have sne: "scan stub_fs ''gallery'' \<noteq> []" "scan demo_fs ''gallery'' \<noteq> []"
    by (simp_all add: stub_scan demo_scan)
  have fne: "filter (\<lambda>p. embed demo_fs (resize_short_side demo_deps) demo_vit p \<noteq> None)
     (scan demo_fs ''gallery'') \<noteq> []"
    by (simp only: demo_embedded) simp
  have w0: "write_index ''gallery'' 5 ([], []) = Inr (\<lparr>report = NoFeatures, saved = []\<rparr> :: nat outcome)"
    by (rule conjunct1 [OF demo])
  have "write_index ''gallery'' 5 ([[[13, 7]], [[13, 7]]], [''gallery/a.png'', ''gallery/b.jpg'']) =
        Inr \<lparr>report = IndexBuilt ''gallery'' (length [''gallery/a.png'', ''gallery/b.jpg'']) 5,
             saved = [(''index_features.npy'', FeatureMatrix (concat [[[13, 7]], [[13::nat, 7]]])),
                      (''index_paths.npy'', PathArray [''gallery/a.png'', ''gallery/b.jpg''])]\<rparr>"
    by (rule conjunct1 [OF mp [OF conjunct1 [OF conjunct2 [OF stub]]
          conjI [OF ne conjI [OF rows len]]]])
  then have w1: "write_index ''gallery'' 5
        ([[[13, 7]], [[13, 7]]], [''gallery/a.png'', ''gallery/b.jpg'']) = Inr demo_index"
    by (simp add: demo_index_def)
  have r0: "build_index_fast demo_deps stub_fs [0] = Some (Inr \<lparr>report = NoFeatures, saved = []\<rparr>)"
    by (rule mp [OF conjunct1 [OF mp [OF conjunct2 [OF conjunct2 [OF stub]]
          conjI [OF stub_facts(2) conjI [OF sne(1) conjI [OF demo_all_finish(2)
            conjI [OF stub_facts(1) conjI [OF demo_loaded(1) demo_loaded(2)]]]]]]]
          stub_filter])
  have "build_index_fast demo_deps demo_fs [0] =
      Some (Inr \<lparr>report = IndexBuilt ''gallery''
               (length (filter (\<lambda>p. embed demo_fs (resize_short_side demo_deps) demo_vit p \<noteq> None)
                         (scan demo_fs ''gallery'')))
               (length (scan demo_fs ''gallery'')),
             saved = [(''index_features.npy'',
                       FeatureMatrix (concat (List.map_filter
                         (embed demo_fs (resize_short_side demo_deps) demo_vit)
                         (scan demo_fs ''gallery'')))),
                      (''index_paths.npy'',
                       PathArray (filter (\<lambda>p. embed demo_fs (resize_short_side demo_deps) demo_vit p \<noteq> None)
                         (scan demo_fs ''gallery'')))]\<rparr>)"
    by (rule conjunct1 [OF mp [OF conjunct2 [OF mp [OF conjunct2 [OF conjunct2 [OF demo]]
          conjI [OF demo_select conjI [OF sne(2) conjI [OF demo_all_finish(1)
            conjI [OF demo_exists(1) conjI [OF demo_loaded(1) demo_loaded(2)]]]]]]]
          conjI [OF fne demo_rows]]])
  then have r1: "build_index_fast demo_deps demo_fs [0] = Some (Inr demo_index)"
    by (simp only: demo_embedded) (simp add: demo_scan demo_index_def)
  show ?thesis
    by (intro conjI w0 ne len w1 stub_facts(1,2) sne demo_all_finish stub_filter r0
        demo_select demo_exists(1) demo_loaded fne r1)
       (simp_all add: demo_vit_def)
qed

subsection \<open>Order and determinism\<close>

lemma same_node_refl: "same_node x x"
  by (cases "(x, x)" rule: same_node.cases) auto

lemma same_node_exists:
  "same_node (fs p) (fs' p) \<Longrightarrow> path_exists fs' p = path_exists fs p"
  by (cases "(fs p, fs' p)" rule: same_node.cases) (auto simp: path_exists_def)

lemma same_node_getsize:
  "same_node (fs p) (fs' p) \<Longrightarrow> getsize fs' p = getsize fs p"
  by (cases "(fs p, fs' p)" rule: same_node.cases) (auto simp: getsize_def)

lemma same_node_glob:
  "same_node (fs folder) (fs' folder) \<Longrightarrow> mset (glob fs' folder ext) = mset (glob fs folder ext)"
  by (cases "(fs folder, fs' folder)" rule: same_node.cases) (auto simp: glob_def)

lemma same_node_scan:
  assumes "same_node (fs folder) (fs' folder)"
  shows "scan fs' folder = scan fs folder"
proof -
  let ?xs = "glob fs folder ''.jpg'' @ glob fs folder ''.png''"
  let ?ys = "glob fs' folder ''.jpg'' @ glob fs' folder ''.png''"
  from assms have "mset (sort ?xs) = mset ?ys" by (simp add: same_node_glob)
  then have "sort ?ys = sort ?xs" by (rule properties_for_sort) simp
  then show ?thesis by (simp add: scan_def)
qed

lemma same_files_exists:
  "\<forall>p. same_node (fs p) (fs' p) \<Longrightarrow> path_exists fs' p = path_exists fs p"
  using same_node_exists [of fs p fs'] by simp

lemma same_files_embed:
  assumes "\<forall>p. same_node (fs p) (fs' p)"
  shows "embed fs' resize vit p = embed fs resize vit p"
proof -
  from assms have "getsize fs' p = getsize fs p"
    using same_node_getsize [of fs p fs'] by simp
  then show ?thesis by (simp add: embed_def)
qed

lemma same_files_process_batch:
  assumes "\<forall>p. same_node (fs p) (fs' p)"
  shows "process_batch d fs' ps = process_batch d fs ps"
proof -
  have e: "embed fs' resize vit = embed fs resize vit" for resize vit
    using same_files_embed [OF assms] by (rule ext)
  have x: "path_exists fs' weight_file = path_exists fs weight_file"
    using assms by (rule same_files_exists)
  show ?thesis
    by (simp add: process_batch_def batch_loop_eq e x split: sum.splits)
qed

lemma same_files_run:
  assumes "\<forall>p. same_node (fs p) (fs' p)"
  shows "build_index_fast d fs' c = build_index_fast d fs c"
proof -
  have "select_target_folder fs' = select_target_folder fs"
    by (simp add: select_target_folder_def same_files_exists [OF assms])
  moreover have sc: "scan fs' folder = scan fs folder" for folder
    using assms same_node_scan [of fs folder fs'] by simp
  moreover have "process_batch d fs' = process_batch d fs"
    using same_files_process_batch [OF assms] by (rule ext)
  ultimately have "index_folder d fs' c folder = index_folder d fs c folder" for folder
    by (simp add: index_folder_def Let_def)
  with \<open>select_target_folder fs' = select_target_folder fs\<close> show ?thesis
    by (simp add: build_index_fast_def split: option.splits)
qed

lemma run_result_unique:
  assumes "build_index_fast d fs c = Some r" "build_index_fast d fs c' = Some r'"
  shows "r = r'"
proof (cases "select_target_folder fs")
  case None
  with assms show ?thesis by (simp add: build_index_fast_def)
next
  case (Some folder)
  with assms have a: "index_folder d fs c folder = Some r"
    and b: "index_folder d fs c' folder = Some r'"
    by (simp_all add: build_index_fast_def)
  show ?thesis
  proof (cases "scan fs folder = []")
    case True
    with a b show ?thesis by (simp add: index_folder_no_images)
  next
    case False
    from index_folder_returns [OF a False] index_folder_returns [OF b False]
    show ?thesis by simp
  qed
qed

lemma run_returns:
  assumes "select_target_folder fs = Some folder"
    and "all_finish c (length (make_chunks batch_size (scan fs folder)))"
  shows "\<exists>r. build_index_fast d fs c = Some r"
proof (cases "scan fs folder = []")
  case True
  with assms show ?thesis by (simp add: build_index_fast_def index_folder_no_images)
next
  case False
  with assms show ?thesis
    by (simp add: build_index_fast_def index_folder_eq split: sum.splits)
qed

text \<open>
  Claim C9. Two runs over the same files, folders, sizes and weight archive,
  with the same model, give the same result and so the same set of (row, path)
  pairs in the saved index, even when the operating system lists the folder in
  another order and the workers finish in another order; and a run whose
  workers all finish does return.
\<close>

theorem rerun_determinism:
  assumes "\<forall>p. same_node (fs p) (fs' p)"
  shows "(build_index_fast d fs c = Some r \<and> build_index_fast d fs' c' = Some r' \<longrightarrow> r = r') \<and>
         (build_index_fast d fs c = Some (Inr out) \<and>
          build_index_fast d fs' c' = Some (Inr out') \<longrightarrow>
            index_pairs out = index_pairs out') \<and>
         (select_target_folder fs = Some folder \<and>
          all_finish c (length (make_chunks batch_size (scan fs folder))) \<and>
          all_finish c' (length (make_chunks batch_size (scan fs folder))) \<longrightarrow>
            (\<exists>r. build_index_fast d fs c = Some r \<and> build_index_fast d fs' c' = Some r))"
proof -
  have same: "build_index_fast d fs' c' = build_index_fast d fs c'"
    using assms by (rule same_files_run)
  have u: "r = r'"
    if "build_index_fast d fs c = Some r" "build_index_fast d fs c' = Some r'" for r r'
    using that by (rule run_result_unique)
  have a: "build_index_fast d fs c = Some r \<and> build_index_fast d fs' c' = Some r' \<longrightarrow> r = r'"
    using u same by simp
  have b: "build_index_fast d fs c = Some (Inr out) \<and>
          build_index_fast d fs' c' = Some (Inr out') \<longrightarrow> index_pairs out = index_pairs out'"
    using u [of "Inr out" "Inr out'"] same by auto
  have c: "\<exists>r. build_index_fast d fs c = Some r \<and> build_index_fast d fs' c' = Some r"
    if h: "select_target_folder fs = Some folder \<and>
          all_finish c (length (make_chunks batch_size (scan fs folder))) \<and>
          all_finish c' (length (make_chunks batch_size (scan fs folder)))"
  proof -
    from h obtain r where r: "build_index_fast d fs c = Some r"
      using run_returns [of fs folder c d] by blast
    from h obtain r' where r': "build_index_fast d fs c' = Some r'"
      using run_returns [of fs folder c' d] by blast
    from r r' have "r = r'" by (rule u)
    with r r' same show ?thesis by simp
  qed
  from a b c show ?thesis by blast
qed

lemma demo_relisted_same: "\<forall>p. same_node (demo_fs p) (demo_fs_relisted p)"
proof
  fix p
  show "same_node (demo_fs p) (demo_fs_relisted p)"
  proof (cases "p = ''gallery''")
    case True
    then show ?thesis by (simp add: demo_fs_relisted_def demo_fs_def)
  next
    case False
    then show ?thesis by (simp add: demo_fs_relisted_def same_node_refl)
  qed
qed

lemma demo_all_finish_other:
  "all_finish [1, 0] (length (make_chunks batch_size (scan demo_fs ''gallery'')))"
  by (simp add: demo_scan make_chunks_single all_finish_def)

lemma demo_index_pairs:
  "index_pairs demo_index = {([13, 7], ''gallery/a.png''), ([13, 7], ''gallery/b.jpg'')}"
  by (simp add: index_pairs_def demo_index_def)

theorem rerun_determinism_witness:
  "(\<forall>p. same_node (demo_fs p) (demo_fs_relisted p)) \<and>
   select_target_folder demo_fs = Some ''gallery'' \<and>
   all_finish [0] (length (make_chunks batch_size (scan demo_fs ''gallery''))) \<and>
   all_finish [1, 0] (length (make_chunks batch_size (scan demo_fs ''gallery''))) \<and>
   build_index_fast demo_deps demo_fs [0] = Some (Inr demo_index) \<and>
   build_index_fast demo_deps demo_fs_relisted [1, 0] = Some (Inr demo_index) \<and>
   index_pairs demo_index = {([13, 7], ''gallery/a.png''), ([13, 7], ''gallery/b.jpg'')}"
proof -
  note inst = rerun_determinism [OF demo_relisted_same, where d = demo_deps and c = "[0]"
      and c' = "[1, 0]" and folder = "''gallery''" and r = "Inr demo_index"
      and r' = "Inr demo_index" and out = demo_index and out' = demo_index]
  have "\<exists>r. build_index_fast demo_deps demo_fs [0] = Some r \<and>
            build_index_fast demo_deps demo_fs_relisted [1, 0] = Some r"
    by (rule mp [OF conjunct2 [OF conjunct2 [OF inst]]
          conjI [OF demo_select conjI [OF demo_all_finish(1) demo_all_finish_other]]])
  then have other: "build_index_fast demo_deps demo_fs_relisted [1, 0] = Some (Inr demo_index)"
    by (simp add: demo_run_index)
  show ?thesis
    by (intro conjI demo_relisted_same demo_select demo_all_finish(1) demo_all_finish_other
        demo_run_index other demo_index_pairs)
qed

lemma collect_pool_loaded:
  assumes "path_exists fs weight_file" "np_load d weight_file = Inr w" "Dinov2Numpy d w = Inr vit"
    and fin: "all_finish completion (length chunks)"
  shows "collect (pool_imap (process_batch d fs) chunks completion) [0..<length chunks] ([], []) =
           Some (Inr (List.map_filter (embed fs (resize_short_side d) vit) (concat chunks),
                      filter (\<lambda>p. embed fs (resize_short_side d) vit p \<noteq> None) (concat chunks)))"
proof -
  let ?results = "pool_imap (process_batch d fs) chunks completion"
  let ?E = "embed fs (resize_short_side d) vit"
  let ?g = "\<lambda>i. (List.map_filter ?E (chunks ! i), filter (\<lambda>p. ?E p \<noteq> None) (chunks ! i))"
  have "\<forall>i\<in>set [0..<length chunks]. ?results i = Some (Inr (?g i))"
    using assms by (simp add: pool_imap_lookup all_finish_iff process_batch_loaded)
  moreover have "\<forall>i\<in>set [0..<length chunks]. length (fst (?g i)) = length (snd (?g i))"
    by (simp add: map_filter_length_eq)
  ultimately have "collect ?results [0..<length chunks] ([], []) =
      Some (Inr ([] @ concat (map (\<lambda>i. fst (?g i)) [0..<length chunks]),
                 [] @ concat (map (\<lambda>i. snd (?g i)) [0..<length chunks])))"
    by (rule collect_all)
  then show ?thesis
    using concat_map_nth [of "List.map_filter ?E" chunks]
      concat_map_nth [of "filter (\<lambda>p. ?E p \<noteq> None)" chunks]
    by (simp add: map_filter_concat filter_concat_map)
qed

lemma sorted_embedded: "sorted (filter P (scan fs folder))"
  using sorted_filter [of "\<lambda>x. x" "scan fs folder" P] sorted_scan [of fs folder] by simp

lemma write_index_concatenated:
  assumes "Fs \<noteq> []" "np_concatenate Fs = Inr M"
  shows "write_index folder n (Fs, Ps) =
           Inr \<lparr>report = IndexBuilt folder (length Ps) n,
                saved = [(''index_features.npy'', FeatureMatrix M),
                         (''index_paths.npy'', PathArray Ps)]\<rparr>"
  using assms by (simp add: write_index_def)

subsection \<open>The order of the saved paths\<close>

text \<open>
  Claim C10. The pool hands the chunk results out in submission order. So,
  whatever the order in which the workers finish, the collecting loop ends with
  the features and the paths of the embedded images in the order of the path
  list it was given; and a run saves as path array the sorted list of discovered
  paths with the paths that were not embedded removed, in that sorted order.
\<close>

theorem final_paths_sorted_filtered:
  "(path_exists fs weight_file \<and> np_load d weight_file = Inr w \<and> Dinov2Numpy d w = Inr vit \<and>
    all_finish completion (length (make_chunks batch_size all_paths)) \<longrightarrow>
      collect (pool_imap (process_batch d fs) (make_chunks batch_size all_paths) completion)
        [0..<length (make_chunks batch_size all_paths)] ([], []) =
      Some (Inr (List.map_filter (embed fs (resize_short_side d) vit) all_paths,
                 filter (\<lambda>p. embed fs (resize_short_side d) vit p \<noteq> None) all_paths))) \<and>
   (select_target_folder fs = Some folder \<and>
    all_finish completion (length (make_chunks batch_size (scan fs folder))) \<and>
    path_exists fs weight_file \<and> np_load d weight_file = Inr w \<and> Dinov2Numpy d w = Inr vit \<and>
    filter (\<lambda>p. embed fs (resize_short_side d) vit p \<noteq> None) (scan fs folder) \<noteq> [] \<and>
    np_concatenate (List.map_filter (embed fs (resize_short_side d) vit) (scan fs folder)) = Inr M \<longrightarrow>
      build_index_fast d fs completion =
        Some (Inr \<lparr>report = IndexBuilt folder
                      (length (filter (\<lambda>p. embed fs (resize_short_side d) vit p \<noteq> None)
                                (scan fs folder)))
                      (length (scan fs folder)),
                    saved = [(''index_features.npy'', FeatureMatrix M),
                             (''index_paths.npy'',
                              PathArray (filter (\<lambda>p. embed fs (resize_short_side d) vit p \<noteq> None)
                                (scan fs folder)))]\<rparr>)) \<and>
   scan fs folder = sort (glob fs folder ''.jpg'' @ glob fs folder ''.png'') \<and>
   sorted (filter (\<lambda>p. embed fs (resize_short_side d) vit p \<noteq> None) (scan fs folder)) \<and>
   (build_index_fast d fs completion = Some (Inr out) \<and> saved out \<noteq> [] \<longrightarrow>
      (\<exists>folder w vit.
         select_target_folder fs = Some folder \<and>
         np_load d weight_file = Inr w \<and> Dinov2Numpy d w = Inr vit \<and>
         saved_paths (saved out) =
           filter (\<lambda>p. embed fs (resize_short_side d) vit p \<noteq> None) (scan fs folder) \<and>
         sorted (saved_paths (saved out))))"
proof -
  let ?E = "embed fs (resize_short_side d) vit"
  have a: "collect (pool_imap (process_batch d fs) (make_chunks batch_size all_paths) completion)
        [0..<length (make_chunks batch_size all_paths)] ([], []) =
      Some (Inr (List.map_filter ?E all_paths, filter (\<lambda>p. ?E p \<noteq> None) all_paths))"
    if "path_exists fs weight_file \<and> np_load d weight_file = Inr w \<and> Dinov2Numpy d w = Inr vit \<and>
        all_finish completion (length (make_chunks batch_size all_paths))"
    using that collect_pool_loaded [of fs d w vit completion "make_chunks batch_size all_paths"]
    by (simp add: make_chunks_concat batch_size_def)
  have b: "build_index_fast d fs completion =
        Some (Inr \<lparr>report = IndexBuilt folder
                      (length (filter (\<lambda>p. ?E p \<noteq> None) (scan fs folder)))
                      (length (scan fs folder)),
                    saved = [(''index_features.npy'', FeatureMatrix M),
                             (''index_paths.npy'',
                              PathArray (filter (\<lambda>p. ?E p \<noteq> None) (scan fs folder)))]\<rparr>)"
    if h: "select_target_folder fs = Some folder \<and>
      all_finish completion (length (make_chunks batch_size (scan fs folder))) \<and>
      path_exists fs weight_file \<and> np_load d weight_file = Inr w \<and> Dinov2Numpy d w = Inr vit \<and>
      filter (\<lambda>p. ?E p \<noteq> None) (scan fs folder) \<noteq> [] \<and>
      np_concatenate (List.map_filter ?E (scan fs folder)) = Inr M"
  proof -
    from h have ne: "scan fs folder \<noteq> []" by auto
    from h have fne: "List.map_filter ?E (scan fs folder) \<noteq> []"
      using map_filter_length_eq [of ?E "scan fs folder"] by auto
    from h ne have "build_index_fast d fs completion =
        Some (write_index folder (length (scan fs folder))
               (List.map_filter ?E (scan fs folder), filter (\<lambda>p. ?E p \<noteq> None) (scan fs folder)))"
      by (simp add: build_index_fast_loaded [of fs folder completion d w vit])
    moreover from h have "np_concatenate (List.map_filter ?E (scan fs folder)) = Inr M" by simp
    ultimately show ?thesis using fne by (simp add: write_index_concatenated)
  qed
  have c: "scan fs folder = sort (glob fs folder ''.jpg'' @ glob fs folder ''.png'')"
    by (simp add: scan_def)
  have s: "sorted (filter (\<lambda>p. ?E p \<noteq> None) (scan fs folder))"
    by (rule sorted_embedded)
  have e: "\<exists>folder w vit.
         select_target_folder fs = Some folder \<and>
         np_load d weight_file = Inr w \<and> Dinov2Numpy d w = Inr vit \<and>
         saved_paths (saved out) =
           filter (\<lambda>p. embed fs (resize_short_side d) vit p \<noteq> None) (scan fs folder) \<and>
         sorted (saved_paths (saved out))"
    if h: "build_index_fast d fs completion = Some (Inr out) \<and> saved out \<noteq> []"
  proof -
    from h have run: "build_index_fast d fs completion = Some (Inr out)" and sv: "saved out \<noteq> []"
      by simp_all
    from run sv obtain folder' w' vit' where
      f: "select_target_folder fs = Some folder'"
      and w: "np_load d weight_file = Inr w'" and vit: "Dinov2Numpy d w' = Inr vit'"
      and out: "out = \<lparr>report = IndexBuilt folder'
                  (length (filter (\<lambda>p. embed fs (resize_short_side d) vit' p \<noteq> None) (scan fs folder')))
                  (length (scan fs folder')),
               saved = [(''index_features.npy'',
                          FeatureMatrix (concat (List.map_filter (embed fs (resize_short_side d) vit') (scan fs folder')))),
                        (''index_paths.npy'',
                          PathArray (filter (\<lambda>p. embed fs (resize_short_side d) vit' p \<noteq> None) (scan fs folder')))]\<rparr>"
      by (rule build_index_fast_saved)
    from out have p: "saved_paths (saved out) =
        filter (\<lambda>p. embed fs (resize_short_side d) vit' p \<noteq> None) (scan fs folder')"
      by simp
    moreover have "sorted (filter (\<lambda>p. embed fs (resize_short_side d) vit' p \<noteq> None) (scan fs folder'))"
      by (rule sorted_embedded)
    ultimately show ?thesis using f w vit by auto
  qed
  from a b c s e show ?thesis by blast
qed

subsection \<open>The gallery of 150 images, evaluated\<close>

lemma big_path_eq: "big_path k = ''gallery/'' @ replicate k CHR ''a'' @ ''.jpg''"
  by (simp add: big_path_def big_name_def os_path_join_def)

lemma big_path_length: "length (big_path k) = 12 + k"
  by (simp add: big_path_eq)

lemma append_le_append: "(xs :: string) @ ys \<le> xs @ zs \<longleftrightarrow> ys \<le> zs"
  by (induction xs) simp_all

lemma big_path_mono:
  assumes "j \<le> k"
  shows "big_path j \<le> big_path k"
proof -
  from assms obtain m where k: "k = j + m" by (auto simp: le_iff_add)
  have "''.jpg'' \<le> replicate m CHR ''a'' @ ''.jpg''"
  proof (cases m)
    case 0
    then show ?thesis by simp
  next
    case (Suc m')
    have "CHR ''.'' < CHR ''a''" by (simp add: less_char_def)
    then show ?thesis by (simp add: Suc)
  qed
  then have "replicate j CHR ''a'' @ ''.jpg'' \<le> replicate j CHR ''a'' @ replicate m CHR ''a'' @ ''.jpg''"
    by (simp only: append_le_append)
  then have "''gallery/'' @ replicate j CHR ''a'' @ ''.jpg'' \<le>
             ''gallery/'' @ replicate (j + m) CHR ''a'' @ ''.jpg''"
    by (simp only: append_le_append replicate_add append_assoc)
  then show ?thesis by (simp only: big_path_eq k)
qed

lemma big_paths_sorted: "sorted (map big_path [i..<j])"
proof -
  have "sorted_wrt (\<lambda>a b. big_path a \<le> big_path b) [i..<j]"
    by (rule sorted_wrt_mono_rel [of "[i..<j]" "(\<le>)"]) (simp_all add: big_path_mono)
  then show ?thesis by (simp add: sorted_map)
qed

lemma big_glob_jpg: "glob big_fs ''gallery'' ''.jpg'' = map big_path (rev [1..<151])"
proof -
  have "\<not> hidden (big_name k) \<and> endswith (big_name k) ''.jpg''" if "1 \<le> k" for k
    using that by (cases k) (simp_all add: hidden_def endswith_def big_name_def)
  then have "filter (\<lambda>name. \<not> hidden name \<and> endswith name ''.jpg'') (map big_name (rev [1..<151])) =
      map big_name (rev [1..<151])"
    by (intro filter_True) auto
  then show ?thesis
    by (simp add: glob_def big_fs_def big_path_def del: upt_Suc upt_rec_numeral)
qed

lemma big_glob_png: "glob big_fs ''gallery'' ''.png'' = []"
proof -
  have "\<not> endswith (big_name k) ''.png''" for k
    by (simp add: endswith_def big_name_def)
  then have "filter (\<lambda>name. \<not> hidden name \<and> endswith name ''.png'') (map big_name (rev [1..<151])) = []"
    by (intro filter_False) auto
  then show ?thesis
    by (simp add: glob_def big_fs_def del: upt_Suc upt_rec_numeral)
qed

lemma big_scan: "scan big_fs ''gallery'' = map big_path [1..<151]"
proof -
  have "sort (map big_path (rev [1..<151])) = map big_path [1..<151]"
    by (rule properties_for_sort) (simp_all add: big_paths_sorted del: upt_Suc upt_rec_numeral)
  then show ?thesis by (simp add: scan_def big_glob_jpg big_glob_png)
qed

lemma big_exists:
  "path_exists big_fs weight_file" "select_target_folder big_fs = Some ''gallery''"
  by (simp_all add: path_exists_def big_fs_def weight_file_def select_target_folder_def)

lemma plain_loaded:
  "np_load plain_deps weight_file = Inr ()" "Dinov2Numpy plain_deps () = Inr plain_vit"
  by (simp_all add: plain_deps_def)

lemma big_getsize:
  assumes "1 \<le> k" "k < 151"
  shows "getsize big_fs (big_path k) = Inr (10 * (12 + k))"
proof -
  have "big_path k \<noteq> ''gallery''" "big_path k \<noteq> ''vit-dinov2-base.npz''"
    by (simp_all add: big_path_eq)
  moreover from assms have "big_path k \<in> set (map big_path [1..<151])"
    by (simp del: upt_Suc upt_rec_numeral)
  ultimately have "big_fs (big_path k) = Some (File (10 * length (big_path k)))"
    by (simp only: big_fs_def if_False if_True)
  then show ?thesis by (simp add: getsize_def big_path_length)
qed

lemma big_embed:
  assumes "1 \<le> k" "k < 151"
  shows "embed big_fs (resize_short_side plain_deps) plain_vit (big_path k) =
           (if 91 \<le> k then Some [[12 + k]] else None)"
  using assms
  by (simp add: embed_def big_getsize plain_deps_def plain_vit_def big_path_length)

lemma big_filter:
  "filter (\<lambda>p. embed big_fs (resize_short_side plain_deps) plain_vit p \<noteq> None)
     (map big_path [1..<151]) = map big_path [91..<151]"
proof -
  let ?ok = "\<lambda>p. embed big_fs (resize_short_side plain_deps) plain_vit p \<noteq> None"
  have split: "[1..<151] = [1..<91] @ [91..<151]"
    using upt_add_eq_append [of 1 91 60] by simp
  have "filter ?ok (map big_path [1..<91]) = []"
    by (rule filter_False) (auto simp: big_embed simp del: upt_Suc upt_rec_numeral)
  moreover have "filter ?ok (map big_path [91..<151]) = map big_path [91..<151]"
    by (rule filter_True) (auto simp: big_embed simp del: upt_Suc upt_rec_numeral)
  ultimately show ?thesis
    by (simp only: split map_append filter_append append_Nil)
qed

lemma big_features:
  "List.map_filter (embed big_fs (resize_short_side plain_deps) plain_vit)
     (map big_path [1..<151]) = map (\<lambda>k. [[12 + k]]) [91..<151]"
proof -
  have "map (\<lambda>p. the (embed big_fs (resize_short_side plain_deps) plain_vit p))
          (map big_path [91..<151]) = map (\<lambda>k. [[12 + k]]) [91..<151]"
    by (simp add: big_embed del: upt_Suc upt_rec_numeral)
  then show ?thesis by (simp only: map_filter_as_map big_filter)
qed

lemma big_concatenate:
  "np_concatenate (map (\<lambda>k. [[12 + k]]) [91..<151]) = Inr (map (\<lambda>k. [12 + k]) [91..<151])"
proof -
  have "np_concatenate (map (\<lambda>k. [[12 + k]]) [91..<151]) =
          Inr (concat (map (\<lambda>k. [[12 + k]]) [91..<151]))"
    by (rule np_concatenate_uniform [where D = 1]) (auto simp del: upt_Suc upt_rec_numeral)
  moreover have "concat (map (\<lambda>k. [[12 + k]]) xs) = map (\<lambda>k. [12 + k]) xs" for xs :: "nat list"
    by (induction xs) simp_all
  ultimately show ?thesis by simp
qed

lemma big_chunks:
  "make_chunks batch_size (map big_path [1..<151]) =
     [map big_path [1..<101], map big_path [101..<151]]"
proof -
  have "py_range 0 150 100 = [0, 100]"
    by (simp add: py_range.simps [of 0] py_range.simps [of 100] py_range.simps [of 200])
  moreover have "take 100 (map big_path [1..<151]) = map big_path [1..<101]"
    by (simp add: take_map take_upt del: upt_Suc upt_rec_numeral)
  moreover have "take 100 (drop 100 (map big_path [1..<151])) = map big_path [101..<151]"
    by (simp add: drop_map del: upt_Suc upt_rec_numeral)
  ultimately show ?thesis
    by (simp add: make_chunks_def batch_size_def del: upt_Suc upt_rec_numeral)
qed

lemma big_all_finish:
  "all_finish [1, 0] (length (make_chunks batch_size (map big_path [1..<151])))"
  by (simp only: big_chunks) (simp add: all_finish_def)

theorem final_paths_sorted_filtered_witness:
  "select_target_folder big_fs = Some ''gallery'' \<and>
   scan big_fs ''gallery'' = map big_path [1..<151] \<and>
   make_chunks batch_size (scan big_fs ''gallery'') =
     [map big_path [1..<101], map big_path [101..<151]] \<and>
   all_finish [1, 0] (length (make_chunks batch_size (scan big_fs ''gallery''))) \<and>
   path_exists big_fs weight_file \<and> np_load plain_deps weight_file = Inr () \<and>
   Dinov2Numpy plain_deps () = Inr plain_vit \<and>
   filter (\<lambda>p. embed big_fs (resize_short_side plain_deps) plain_vit p \<noteq> None)
     (scan big_fs ''gallery'') = map big_path [91..<151] \<and>
   map big_path [91..<151] \<noteq> [] \<and>
   np_concatenate (List.map_filter (embed big_fs (resize_short_side plain_deps) plain_vit)
     (scan big_fs ''gallery'')) = Inr (map (\<lambda>k. [12 + k]) [91..<151]) \<and>
   collect (pool_imap (process_batch plain_deps big_fs)
              (make_chunks batch_size (scan big_fs ''gallery'')) [1, 0])
     [0..<length (make_chunks batch_size (scan big_fs ''gallery''))] ([], []) =
     Some (Inr (map (\<lambda>k. [[12 + k]]) [91..<151], map big_path [91..<151])) \<and>
   build_index_fast plain_deps big_fs [1, 0] =
     Some (Inr \<lparr>report = IndexBuilt ''gallery'' 60 150,
                saved = [(''index_features.npy'', FeatureMatrix (map (\<lambda>k. [12 + k]) [91..<151])),
                         (''index_paths.npy'', PathArray (map big_path [91..<151]))]\<rparr>) \<and>
   sorted (map big_path [91..<151])"
proof -
  let ?E = "embed big_fs (resize_short_side plain_deps) plain_vit"
  let ?ok = "\<lambda>p. ?E p \<noteq> None"
  let ?scan = "scan big_fs ''gallery''"
  let ?M = "map (\<lambda>k. [12 + k]) [91..<151]"
  note inst = final_paths_sorted_filtered [where fs = big_fs and d = plain_deps and w = "()"
      and vit = plain_vit and completion = "[1, 0]" and all_paths = ?scan
      and folder = "''gallery''" and M = ?M]
  have chunks: "make_chunks batch_size ?scan = [map big_path [1..<101], map big_path [101..<151]]"
    by (simp only: big_scan big_chunks)
  have fin: "all_finish [1, 0] (length (make_chunks batch_size ?scan))"
    by (simp only: big_scan big_all_finish)
  have flt: "filter ?ok ?scan = map big_path [91..<151]"
    by (simp only: big_scan big_filter)
  have ne: "map big_path [91..<151] \<noteq> []"
    by (simp del: upt_Suc upt_rec_numeral)
  have fne: "filter ?ok ?scan \<noteq> []"
    by (simp only: flt ne not_False_eq_True)
  have cat: "np_concatenate (List.map_filter ?E ?scan) = Inr ?M"
    by (simp only: big_scan big_features big_concatenate)
  have "collect (pool_imap (process_batch plain_deps big_fs) (make_chunks batch_size ?scan) [1, 0])
          [0..<length (make_chunks batch_size ?scan)] ([], []) =
        Some (Inr (List.map_filter ?E ?scan, filter ?ok ?scan))"
    by (rule mp [OF conjunct1 [OF inst]
          conjI [OF big_exists(1) conjI [OF plain_loaded(1) conjI [OF plain_loaded(2) fin]]]])
  then have col: "collect (pool_imap (process_batch plain_deps big_fs)
              (make_chunks batch_size ?scan) [1, 0])
          [0..<length (make_chunks batch_size ?scan)] ([], []) =
        Some (Inr (map (\<lambda>k. [[12 + k]]) [91..<151], map big_path [91..<151]))"
    by (simp only: flt) (simp only: big_scan big_features)
  have "build_index_fast plain_deps big_fs [1, 0] =
      Some (Inr \<lparr>report = IndexBuilt ''gallery'' (length (filter ?ok ?scan)) (length ?scan),
                 saved = [(''index_features.npy'', FeatureMatrix ?M),
                          (''index_paths.npy'', PathArray (filter ?ok ?scan))]\<rparr>)"
    by (rule mp [OF conjunct1 [OF conjunct2 [OF inst]]
          conjI [OF big_exists(2) conjI [OF fin conjI [OF big_exists(1)
            conjI [OF plain_loaded(1) conjI [OF plain_loaded(2) conjI [OF fne cat]]]]]]])
  then have run: "build_index_fast plain_deps big_fs [1, 0] =
     Some (Inr \<lparr>report = IndexBuilt ''gallery'' 60 150,
                saved = [(''index_features.npy'', FeatureMatrix ?M),
                         (''index_paths.npy'', PathArray (map big_path [91..<151]))]\<rparr>)"
    by (simp only: flt) (simp add: big_scan del: upt_Suc upt_rec_numeral)
  have srt: "sorted (map big_path [91..<151])"
    by (rule big_paths_sorted)
  show ?thesis
    by (intro conjI big_exists(2) big_scan chunks fin big_exists(1) plain_loaded flt ne cat col
        run srt)
qed

end
